theory Spec2Isabelle
  imports Complex_Main
begin

section \<open>JavaScript values\<close>

text \<open>
  The values an upstream JSON payload can carry, plus \<open>undefined\<close> (what reading a missing
  property gives). Numbers are restricted to integers: non-integral numbers and \<open>NaN\<close> play
  no part in the ingestion pipeline.
\<close>

datatype jsval =
    Undefined
  | Null
  | Bool bool
  | Num int
  | Str string
  | Arr "jsval list"
  | Obj "(string \<times> jsval) list"

text \<open>JavaScript truthiness: \<open>undefined\<close>, \<open>null\<close>, \<open>false\<close>, \<open>0\<close> and \<open>""\<close> are falsy.\<close>

fun truthy :: "jsval \<Rightarrow> bool" where
  "truthy Undefined = False"
| "truthy Null = False"
| "truthy (Bool b) = b"
| "truthy (Num n) = (n \<noteq> 0)"
| "truthy (Str s) = (s \<noteq> [])"
| "truthy (Arr xs) = True"
| "truthy (Obj kvs) = True"

text \<open>The operator \<open>a || b\<close>.\<close>

definition js_or :: "jsval \<Rightarrow> jsval \<Rightarrow> jsval" where
  "js_or a b = (if truthy a then a else b)"

text \<open>Property access \<open>o.k\<close> on a plain object: a missing key reads as \<open>undefined\<close>.\<close>

type_synonym raw_record = "(string \<times> jsval) list"

definition get_prop :: "raw_record \<Rightarrow> string \<Rightarrow> jsval" where
  "get_prop r k = (case map_of r k of None \<Rightarrow> Undefined | Some v \<Rightarrow> v)"

text \<open>
  A thrown JavaScript error: its \<open>message\<close> and, for an HTTP failure raised by the HTTP
  client, the \<open>response\<close> with its status and body.
\<close>

record http_response =
  resp_status :: nat
  resp_data :: jsval

record js_error =
  message :: string
  response :: "http_response option"

section \<open>Strings\<close>

text \<open>
  Strings are lists of code units below 256. \<open>String.prototype.split\<close> with a one-character
  separator, \<open>String.prototype.trim\<close> and \<open>Array.prototype.join\<close>.
\<close>

fun split_on :: "char \<Rightarrow> string \<Rightarrow> string list" where
  "split_on c [] = [[]]"
| "split_on c (x # xs) =
     (if x = c then [] # split_on c xs
      else (case split_on c xs of
              [] \<Rightarrow> [[x]]
            | y # ys \<Rightarrow> (x # y) # ys))"

definition is_js_space :: "char \<Rightarrow> bool" where
  "is_js_space c = (of_char c \<in> {9, 10, 11, 12, 13, 32, 160 :: nat})"

definition trim :: "string \<Rightarrow> string" where
  "trim s = rev (dropWhile is_js_space (rev (dropWhile is_js_space s)))"

fun join :: "string \<Rightarrow> string list \<Rightarrow> string" where
  "join sep [] = []"
| "join sep [x] = x"
| "join sep (x # y # ys) = x @ sep @ join sep (y # ys)"

text \<open>\<open>Array.prototype.slice(a, b)\<close> for non-negative \<open>a\<close> and \<open>b\<close>.\<close>

definition slice :: "'a list \<Rightarrow> nat \<Rightarrow> nat \<Rightarrow> 'a list" where
  "slice xs a b = take (b - a) (drop a xs)"

section \<open>Category batching (ingestNews, first part)\<close>

text \<open>
  An environment variable is absent (\<open>None\<close>) or a string; \<open>process.env.X || d\<close> takes the
  default when the variable is absent or empty.
\<close>

definition env_or :: "string option \<Rightarrow> string \<Rightarrow> string" where
  "env_or v d = (case v of None \<Rightarrow> d | Some s \<Rightarrow> if s = [] then d else s)"

definition allCategories :: "string option \<Rightarrow> string list" where
  "allCategories NEWS_FETCH_CATEGORIES =
     filter (\<lambda>c. c \<noteq> [])
       (map trim (split_on CHR '','' (env_or NEWS_FETCH_CATEGORIES ''technology,business,science'')))"

definition CATEGORY_BATCH_SIZE :: nat where
  "CATEGORY_BATCH_SIZE = 5"

text \<open>
  The loop \<open>for (let i = 0; i < allCategories.length; i += CATEGORY_BATCH_SIZE)
  categoryBatches.push(allCategories.slice(i, i + CATEGORY_BATCH_SIZE))\<close>.
\<close>

function chunk_loop :: "'a list \<Rightarrow> nat \<Rightarrow> 'a list list \<Rightarrow> 'a list list" where
  "chunk_loop cs i batches =
     (if i < length cs
      then chunk_loop cs (i + CATEGORY_BATCH_SIZE)
             (batches @ [slice cs i (i + CATEGORY_BATCH_SIZE)])
      else batches)"
  by pat_completeness auto
termination
  by (relation "measure (\<lambda>(cs, i, batches). length cs - i)")
     (auto simp: CATEGORY_BATCH_SIZE_def)

definition categoryBatches :: "'a list \<Rightarrow> 'a list list" where
  "categoryBatches cs = chunk_loop cs 0 []"

section \<open>Dates (the built-in Date constructor)\<close>

text \<open>
  \<open>String(v)\<close> on the values above, \<open>None\<close> when the conversion throws a \<open>TypeError\<close>.
  \<open>Num n\<close> stands for a safe integer, which prints in decimal. An array prints its
  elements joined by commas, \<open>null\<close> and \<open>undefined\<close> as the empty string. A plain object
  prints as \<open>[object Object]\<close> through \<open>Object.prototype.toString\<close>, unless it has an own
  property \<open>toString\<close>: a JSON value is not callable, the inherited \<open>valueOf\<close> returns the
  object itself and an own \<open>valueOf\<close> is not callable either, so the conversion to a
  primitive fails.
\<close>

definition digit_char :: "nat \<Rightarrow> char" where
  "digit_char d = char_of (48 + d)"

function show_nat :: "nat \<Rightarrow> string" where
  "show_nat n = (if n < 10 then [digit_char n] else show_nat (n div 10) @ [digit_char (n mod 10)])"
  by pat_completeness auto
termination
  by (relation "measure id") auto

fun js_String :: "jsval \<Rightarrow> string option" where
  "js_String Undefined = Some ''undefined''"
| "js_String Null = Some ''null''"
| "js_String (Bool b) = Some (if b then ''true'' else ''false'')"
| "js_String (Num n) =
     Some (if n < 0 then CHR ''-'' # show_nat (nat (- n)) else show_nat (nat n))"
| "js_String (Str s) = Some s"
| "js_String (Arr xs) =
     map_option (join '','')
       (those (map (\<lambda>x. if x = Undefined \<or> x = Null then Some [] else js_String x) xs))"
| "js_String (Obj kvs) =
     (if ''toString'' \<in> set (map fst kvs) then None else Some ''[object Object]'')"

definition to_primitive_error :: js_error where
  "to_primitive_error =
     \<lparr>message = ''Cannot convert object to primitive value'', response = None\<rparr>"

text \<open>\<open>String.prototype.replace(a, b)\<close> with string arguments: the first occurrence only.\<close>

fun replace_first :: "char \<Rightarrow> char \<Rightarrow> string \<Rightarrow> string" where
  "replace_first a b [] = []"
| "replace_first a b (x # xs) = (if x = a then b # xs else x # replace_first a b xs)"

text \<open>
  Time values as ECMAScript defines them: milliseconds since 1970-01-01T00:00:00Z, from
  \<open>DayFromYear\<close>, \<open>MakeDay\<close>, \<open>MakeTime\<close>, \<open>MakeDate\<close> and \<open>TimeClip\<close>. Months count from 1 here.
\<close>

definition InLeapYear :: "int \<Rightarrow> bool" where
  "InLeapYear y = (y mod 4 = 0 \<and> (y mod 100 \<noteq> 0 \<or> y mod 400 = 0))"

definition DayFromYear :: "int \<Rightarrow> int" where
  "DayFromYear y =
     365 * (y - 1970) + (y - 1969) div 4 - (y - 1901) div 100 + (y - 1601) div 400"

definition DaysInMonth :: "int \<Rightarrow> nat \<Rightarrow> nat" where
  "DaysInMonth y m =
     (if m = 2 then (if InLeapYear y then 29 else 28)
      else if m \<in> {4, 6, 9, 11} then 30 else 31)"

definition MakeDay :: "int \<Rightarrow> nat \<Rightarrow> nat \<Rightarrow> int" where
  "MakeDay y m d = DayFromYear y + int (\<Sum>k \<leftarrow> [1..<m]. DaysInMonth y k) + int d - 1"

definition MakeTime :: "nat \<Rightarrow> nat \<Rightarrow> nat \<Rightarrow> nat \<Rightarrow> int" where
  "MakeTime h mi s ms = int h * 3600000 + int mi * 60000 + int s * 1000 + int ms"

definition MakeDate :: "int \<Rightarrow> int \<Rightarrow> int" where
  "MakeDate day time = day * 86400000 + time"

definition TimeClip :: "int \<Rightarrow> int option" where
  "TimeClip t = (if \<bar>t\<bar> > 8640000000000000 then None else Some t)"

text \<open>
  The ECMAScript date-time string format with the UTC offset \<open>Z\<close>:
  \<open>YYYY[-MM[-DD]]THH:mm[:ss[.sss]]Z\<close>, the year either four digits or a sign and six digits.
\<close>

definition digit_of :: "char \<Rightarrow> nat option" where
  "digit_of c = (let n = of_char c :: nat in if 48 \<le> n \<and> n \<le> 57 then Some (n - 48) else None)"

fun read_digits :: "nat \<Rightarrow> string \<Rightarrow> (nat \<times> string) option" where
  "read_digits 0 s = Some (0, s)"
| "read_digits (Suc k) [] = None"
| "read_digits (Suc k) (c # cs) =
     (case digit_of c of
        None \<Rightarrow> None
      | Some d \<Rightarrow>
          (case read_digits k cs of
             None \<Rightarrow> None
           | Some (v, rest) \<Rightarrow> Some (d * 10 ^ k + v, rest)))"

definition read_char :: "char \<Rightarrow> string \<Rightarrow> string option" where
  "read_char c s = (case s of [] \<Rightarrow> None | x # xs \<Rightarrow> if x = c then Some xs else None)"

definition read_year :: "string \<Rightarrow> (int \<times> string) option" where
  "read_year s =
     (case s of
        [] \<Rightarrow> None
      | c # cs \<Rightarrow>
          if c = CHR ''+'' \<or> c = CHR ''-'' then
            (case read_digits 6 cs of
               None \<Rightarrow> None
             | Some (y, rest) \<Rightarrow>
                 if c = CHR ''-'' then (if y = 0 then None else Some (- int y, rest))
                 else Some (int y, rest))
          else
            (case read_digits 4 s of
               None \<Rightarrow> None
             | Some (y, rest) \<Rightarrow> Some (int y, rest)))"

definition read_month_day :: "string \<Rightarrow> ((nat \<times> nat) \<times> string) option" where
  "read_month_day s =
     (case read_char CHR ''-'' s of
        None \<Rightarrow> Some ((1, 1), s)
      | Some s1 \<Rightarrow>
          (case read_digits 2 s1 of
             None \<Rightarrow> None
           | Some (m, s2) \<Rightarrow>
               (case read_char CHR ''-'' s2 of
                  None \<Rightarrow> Some ((m, 1), s2)
                | Some s3 \<Rightarrow>
                    (case read_digits 2 s3 of
                       None \<Rightarrow> None
                     | Some (d, s4) \<Rightarrow> Some ((m, d), s4)))))"

definition read_sec_ms :: "string \<Rightarrow> ((nat \<times> nat) \<times> string) option" where
  "read_sec_ms s =
     (case read_char CHR '':'' s of
        None \<Rightarrow> Some ((0, 0), s)
      | Some s1 \<Rightarrow>
          (case read_digits 2 s1 of
             None \<Rightarrow> None
           | Some (sec, s2) \<Rightarrow>
               (case read_char CHR ''.'' s2 of
                  None \<Rightarrow> Some ((sec, 0), s2)
                | Some s3 \<Rightarrow>
                    (case read_digits 3 s3 of
                       None \<Rightarrow> None
                     | Some (ms, s4) \<Rightarrow> Some ((sec, ms), s4)))))"

definition read_time :: "string \<Rightarrow> ((nat \<times> nat \<times> nat \<times> nat) \<times> string) option" where
  "read_time s =
     (case read_char CHR ''T'' s of
        None \<Rightarrow> None
      | Some s1 \<Rightarrow>
          (case read_digits 2 s1 of
             None \<Rightarrow> None
           | Some (h, s2) \<Rightarrow>
               (case read_char CHR '':'' s2 of
                  None \<Rightarrow> None
                | Some s3 \<Rightarrow>
                    (case read_digits 2 s3 of
                       None \<Rightarrow> None
                     | Some (mi, s4) \<Rightarrow>
                         (case read_sec_ms s4 of
                            None \<Rightarrow> None
                          | Some ((sec, ms), s5) \<Rightarrow> Some ((h, mi, sec, ms), s5))))))"

definition parse_iso_utc :: "string \<Rightarrow> int option" where
  "parse_iso_utc s =
     (case read_year s of
        None \<Rightarrow> None
      | Some (y, s1) \<Rightarrow>
          (case read_month_day s1 of
             None \<Rightarrow> None
           | Some ((m, d), s2) \<Rightarrow>
               (case read_time s2 of
                  None \<Rightarrow> None
                | Some ((h, mi, sec, ms), s3) \<Rightarrow>
                    if s3 \<noteq> ''Z'' then None
                    else if \<not> (1 \<le> m \<and> m \<le> 12 \<and> 1 \<le> d \<and> d \<le> DaysInMonth y m) then None
                    else if \<not> (h \<le> 23 \<and> mi \<le> 59 \<and> sec \<le> 59
                                \<or> h = 24 \<and> mi = 0 \<and> sec = 0 \<and> ms = 0) then None
                    else TimeClip (MakeDate (MakeDay y m d) (MakeTime h mi sec ms)))))"

text \<open>
  \<open>new Date(str).getTime()\<close>, with \<open>None\<close> for \<open>NaN\<close>. ECMAScript fixes the result on the
  format above. Every other string is left to the parameter \<open>other_formats\<close>: the forms of
  the format without \<open>Z\<close> (the pipeline never builds one: it appends \<open>Z\<close>), element values
  out of range, and whatever formats the engine accepts beyond the standard.
\<close>

definition Date_parse :: "(string \<Rightarrow> int option) \<Rightarrow> string \<Rightarrow> int option" where
  "Date_parse other_formats str =
     (case parse_iso_utc str of Some t \<Rightarrow> Some t | None \<Rightarrow> other_formats str)"

text \<open>
  The format the comment in \<open>upsertArticles\<close> names for upstream dates,
  \<open>"YYYY-MM-DD HH:mm:ss"\<close>: the six fields of a string in that shape, and whether they
  denote a date and a time of day.
\<close>

definition read_sep :: "char \<Rightarrow> nat \<Rightarrow> string \<Rightarrow> (nat \<times> string) option" where
  "read_sep c k s = (case read_char c s of None \<Rightarrow> None | Some s' \<Rightarrow> read_digits k s')"

definition read_pubDate :: "string \<Rightarrow> (nat \<times> nat \<times> nat \<times> nat \<times> nat \<times> nat) option" where
  "read_pubDate s =
     Option.bind (read_digits 4 s) (\<lambda>(y, s1).
     Option.bind (read_sep CHR ''-'' 2 s1) (\<lambda>(m, s2).
     Option.bind (read_sep CHR ''-'' 2 s2) (\<lambda>(d, s3).
     Option.bind (read_sep CHR '' '' 2 s3) (\<lambda>(h, s4).
     Option.bind (read_sep CHR '':'' 2 s4) (\<lambda>(mi, s5).
     Option.bind (read_sep CHR '':'' 2 s5) (\<lambda>(sec, s6).
     if s6 = [] then Some (y, m, d, h, mi, sec) else None))))))"

definition valid_pubDate :: "string \<Rightarrow> bool" where
  "valid_pubDate s =
     (case read_pubDate s of
        None \<Rightarrow> False
      | Some (y, m, d, h, mi, sec) \<Rightarrow>
          1 \<le> m \<and> m \<le> 12 \<and> 1 \<le> d \<and> d \<le> DaysInMonth (int y) m
          \<and> h \<le> 23 \<and> mi \<le> 59 \<and> sec \<le> 59)"

text \<open>The instant such a string denotes, read as UTC.\<close>

definition utc_instant :: "nat \<times> nat \<times> nat \<times> nat \<times> nat \<times> nat \<Rightarrow> int" where
  "utc_instant f =
     (case f of (y, m, d, h, mi, sec) \<Rightarrow>
        MakeDate (MakeDay (int y) m d) (MakeTime h mi sec 0))"

section \<open>Upsert operations (upsertArticles)\<close>

text \<open>A value of the update document: a JSON value or a \<open>Date\<close> object (its time value).\<close>

datatype field_value = Js jsval | DateValue int

text \<open>
  The \<open>parsedDate\<close> block of the map callback:
  \<open>let parsedDate = null; if (article.pubDate) { const iso = String(article.pubDate).replace(' ', 'T') + 'Z';
  const d = new Date(iso); parsedDate = isNaN(d.getTime()) ? null : d; }\<close>
\<close>

text \<open>\<open>Inl\<close> is the \<open>TypeError\<close> thrown by \<open>String(article.pubDate)\<close>.\<close>

definition parsedDate :: "(string \<Rightarrow> int option) \<Rightarrow> jsval \<Rightarrow> js_error + field_value" where
  "parsedDate other_formats pubDate =
     (if truthy pubDate then
        (case js_String pubDate of
           None \<Rightarrow> Inl to_primitive_error
         | Some str \<Rightarrow>
             (let iso = replace_first CHR '' '' CHR ''T'' str @ ''Z''
              in case Date_parse other_formats iso of
                   None \<Rightarrow> Inr (Js Null)
                 | Some t \<Rightarrow> Inr (DateValue t)))
      else Inr (Js Null))"

text \<open>
  One element of \<open>ops\<close>: \<open>{ updateOne: { filter: { article_id }, update: { $set: {...} },
  upsert: true } }\<close>. The \<open>$set\<close> document keeps the order of the source.
\<close>

record update_one =
  filter_article_id :: jsval
  set_doc :: "(string \<times> field_value) list"
  upsert :: bool

definition set_fields :: "field_value \<Rightarrow> raw_record \<Rightarrow> (string \<times> field_value) list" where
  "set_fields parsed article =
     [(''title'', Js (get_prop article ''title'')),
      (''link'', Js (get_prop article ''link'')),
      (''keywords'', Js (js_or (get_prop article ''keywords'') (Arr []))),
      (''creator'', Js (js_or (get_prop article ''creator'') (Arr []))),
      (''video_url'', Js (js_or (get_prop article ''video_url'') Null)),
      (''description'', Js (js_or (get_prop article ''description'') Null)),
      (''content'', Js (js_or (get_prop article ''content'') Null)),
      (''pubDate'', parsed),
      (''pubDateTZ'', Js (js_or (get_prop article ''pubDateTZ'') Null)),
      (''image_url'', Js (js_or (get_prop article ''image_url'') Null)),
      (''source_id'', Js (js_or (get_prop article ''source_id'') Null)),
      (''source_name'', Js (js_or (get_prop article ''source_name'') Null)),
      (''source_url'', Js (js_or (get_prop article ''source_url'') Null)),
      (''source_icon'', Js (js_or (get_prop article ''source_icon'') Null)),
      (''source_priority'', Js (js_or (get_prop article ''source_priority'') Null)),
      (''country'', Js (js_or (get_prop article ''country'') (Arr []))),
      (''category'', Js (js_or (get_prop article ''category'') (Arr []))),
      (''language'', Js (js_or (get_prop article ''language'') Null)),
      (''ai_tag'', Js (js_or (get_prop article ''ai_tag'') (Arr []))),
      (''sentiment'', Js (js_or (get_prop article ''sentiment'') Null)),
      (''sentiment_stats'', Js (js_or (get_prop article ''sentiment_stats'') Null)),
      (''ai_region'', Js (js_or (get_prop article ''ai_region'') (Arr []))),
      (''ai_org'', Js (js_or (get_prop article ''ai_org'') (Arr []))),
      (''duplicate'', Js (js_or (get_prop article ''duplicate'') (Bool False))),
      (''datatype'', Js (js_or (get_prop article ''datatype'') Null))]"

text \<open>The map callback on one article: the date is parsed first, then the operation is built.\<close>

definition update_op :: "(string \<Rightarrow> int option) \<Rightarrow> raw_record \<Rightarrow> js_error + update_one" where
  "update_op other_formats article =
     (case parsedDate other_formats (get_prop article ''pubDate'') of
        Inl e \<Rightarrow> Inl e
      | Inr parsed \<Rightarrow>
          Inr \<lparr>filter_article_id = get_prop article ''article_id'',
               set_doc = set_fields parsed article,
               upsert = True\<rparr>)"

text \<open>\<open>articles.map(...)\<close>: the first callback that throws ends the map.\<close>

fun map_ops :: "(string \<Rightarrow> int option) \<Rightarrow> raw_record list \<Rightarrow> js_error + update_one list" where
  "map_ops other_formats [] = Inr []"
| "map_ops other_formats (article # rest) =
     (case update_op other_formats article of
        Inl e \<Rightarrow> Inl e
      | Inr op \<Rightarrow>
          (case map_ops other_formats rest of
             Inl e \<Rightarrow> Inl e
           | Inr ops \<Rightarrow> Inr (op # ops)))"

section \<open>The environment of a run\<close>

text \<open>
  The upstream payload \<open>response.data\<close>: \<open>{status, results, nextPage}\<close>. \<open>results\<close> is an
  array of plain objects, or absent.
\<close>

record payload =
  status :: jsval
  results :: "raw_record list option"
  nextPage :: jsval

record bulk_result =
  upsertedCount :: nat
  modifiedCount :: nat

record counts =
  upserted :: nat
  modified :: nat

record totals = counts +
  pages :: nat

datatype level = LError | LWarn | LInfo | LDebug

text \<open>
  The log lines of \<open>ingestNews\<close> and of the cron callback, with the values each one
  interpolates (\<open>CronTriggered\<close> without its wall-clock time).
\<close>

datatype log_msg =
    KeyNotSet
  | Starting nat nat
  | FetchingBatch string
  | ApiError string payload
  | FetchedArticles nat nat
  | IngestionComplete nat nat nat
  | HttpError nat jsval
  | IngestionError string
  | SkippingRun
  | CronTriggered
  | CronJobFailed string

text \<open>What a run does to the outside, in order.\<close>

datatype effect =
    HttpGet string "(string \<times> jsval) list"
  | BulkWrite "update_one list"
  | Sleep nat
  | Log level log_msg

text \<open>
  The collaborators of the pipeline are parameters: the configuration read from
  \<open>process.env\<close>, the HTTP client (\<open>axios.get(url, {params, timeout}).then(r => r.data)\<close>),
  the store (\<open>Article.bulkWrite(ops, {ordered: false})\<close>) and the engine's date formats.
  Both calls may throw, and both act on an outside world of type \<open>'w\<close>.
\<close>

record 'w env =
  NEWSDATA_BASE_URL :: "string option"
  NEWSDATA_API_KEY :: "string option"
  NEWS_FETCH_CATEGORIES :: "string option"
  NEWS_FETCH_LANGUAGE :: "string option"
  http_get :: "string \<Rightarrow> (string \<times> jsval) list \<Rightarrow> 'w \<Rightarrow> (js_error + payload) \<times> 'w"
  bulkWrite :: "update_one list \<Rightarrow> 'w \<Rightarrow> (js_error + bulk_result) \<times> 'w"
  other_date_formats :: "string \<Rightarrow> int option"

record 'w st =
  world :: 'w
  effects :: "effect list"

definition emit :: "effect \<Rightarrow> 'w st \<Rightarrow> 'w st" where
  "emit e s = s\<lparr>effects := effects s @ [e]\<rparr>"

definition env_truthy :: "string option \<Rightarrow> bool" where
  "env_truthy v = (case v of None \<Rightarrow> False | Some x \<Rightarrow> x \<noteq> [])"

definition env_value :: "string option \<Rightarrow> jsval" where
  "env_value v = (case v of None \<Rightarrow> Undefined | Some x \<Rightarrow> Str x)"

definition BASE_URL :: "'w env \<Rightarrow> string" where
  "BASE_URL E = env_or (NEWSDATA_BASE_URL E) ''https://newsdata.io/api/1''"

text \<open>
  \<open>fetchNewsPage\<close>: the URL \<open>`${BASE_URL}/news`\<close> and the query
  \<open>{apikey: API_KEY, ...params}\<close>.
\<close>

definition news_url :: "'w env \<Rightarrow> string" where
  "news_url E = BASE_URL E @ ''/news''"

definition with_apikey :: "'w env \<Rightarrow> (string \<times> jsval) list \<Rightarrow> (string \<times> jsval) list" where
  "with_apikey E params = (''apikey'', env_value (NEWSDATA_API_KEY E)) # params"

definition fetchNewsPage ::
  "'w env \<Rightarrow> (string \<times> jsval) list \<Rightarrow> 'w st \<Rightarrow> (js_error + payload) \<times> 'w st" where
  "fetchNewsPage E params s =
     (let (r, w) = http_get E (news_url E) (with_apikey E params) (world s)
      in (r, \<lparr>world = w, effects = effects s @ [HttpGet (news_url E) (with_apikey E params)]\<rparr>))"

definition upsertArticles ::
  "'w env \<Rightarrow> raw_record list \<Rightarrow> 'w st \<Rightarrow> (js_error + counts) \<times> 'w st" where
  "upsertArticles E articles s =
     (if length articles = 0 then (Inr \<lparr>upserted = 0, modified = 0\<rparr>, s)
      else
        (case map_ops (other_date_formats E) articles of
           Inl e \<Rightarrow> (Inl e, s)
         | Inr ops \<Rightarrow>
             (let (r, w) = bulkWrite E ops (world s);
                  s' = \<lparr>world = w, effects = effects s @ [BulkWrite ops]\<rparr>
              in case r of
                   Inl e \<Rightarrow> (Inl e, s')
                 | Inr result \<Rightarrow>
                     (Inr \<lparr>upserted = upsertedCount result, modified = modifiedCount result\<rparr>,
                      s'))))"

section \<open>The orchestrator (ingestNews)\<close>

definition MAX_PAGES :: nat where
  "MAX_PAGES = 3"

text \<open>The \<open>params\<close> object of one request: \<open>{language, category, ...(page ? {page} : {})}\<close>.\<close>

definition page_params :: "string \<Rightarrow> string \<Rightarrow> jsval \<Rightarrow> (string \<times> jsval) list" where
  "page_params language categoryParam page =
     [(''language'', Str language), (''category'', Str categoryParam)]
     @ (if truthy page then [(''page'', page)] else [])"

text \<open>
  One pass through the body of the \<open>do ... while\<close> loop, up to and including the upsert:
  the fetch or the upsert throws (\<open>Raised\<close>), the payload's status is not \<open>'success'\<close> and
  the loop breaks after logging the payload (\<open>Aborted\<close>), or the page is stored (\<open>Stored\<close>,
  with the payload and the counts of the upsert).
\<close>

datatype 'w page_outcome =
    Raised js_error "'w st"
  | Aborted "'w st"
  | Stored payload counts "'w st"

definition page_body ::
  "'w env \<Rightarrow> string \<Rightarrow> string \<Rightarrow> jsval \<Rightarrow> nat \<Rightarrow> 'w st \<Rightarrow> 'w page_outcome" where
  "page_body E language categoryParam page pageCount s =
     (case fetchNewsPage E (page_params language categoryParam page) s of
        (Inl e, s1) \<Rightarrow> Raised e s1
      | (Inr data, s1) \<Rightarrow>
          if status data \<noteq> Str ''success''
          then Aborted (emit (Log LError (ApiError categoryParam data)) s1)
          else
            (let articles = (case results data of None \<Rightarrow> [] | Some rs \<Rightarrow> rs);
                 s2 = emit (Log LDebug (FetchedArticles (length articles) (pageCount + 1))) s1
             in case upsertArticles E articles s2 of
                  (Inl e, s3) \<Rightarrow> Raised e s3
                | (Inr c, s3) \<Rightarrow> Stored data c s3))"

text \<open>The accumulators after a stored page: \<open>totalUpserted\<close>, \<open>totalModified\<close>, \<open>totalPages\<close>.\<close>

definition add_page :: "totals \<Rightarrow> counts \<Rightarrow> totals" where
  "add_page tot c =
     tot\<lparr>upserted := upserted tot + upserted c,
         modified := modified tot + modified c,
         pages := pages tot + 1\<rparr>"

text \<open>
  The \<open>do ... while (page && pageCount < MAX_PAGES)\<close> loop of one batch. \<open>Inl\<close> is an
  exception leaving the loop, \<open>Inr\<close> the accumulators when the loop ends or breaks. The
  one-second delay sits under the same condition as the loop's.
\<close>

function page_loop ::
  "'w env \<Rightarrow> string \<Rightarrow> string \<Rightarrow> jsval \<Rightarrow> nat \<Rightarrow> totals \<Rightarrow> 'w st \<Rightarrow> (js_error + totals) \<times> 'w st" where
  "page_loop E language categoryParam page pageCount tot s =
     (case page_body E language categoryParam page pageCount s of
        Raised e s' \<Rightarrow> (Inl e, s')
      | Aborted s' \<Rightarrow> (Inr tot, s')
      | Stored data c s' \<Rightarrow>
          (let page' = js_or (nextPage data) Null;
               pageCount' = pageCount + 1
           in if truthy page' \<and> pageCount' < MAX_PAGES
              then page_loop E language categoryParam page' pageCount' (add_page tot c)
                     (emit (Sleep 1000) s')
              else (Inr (add_page tot c), s')))"
  by pat_completeness auto
termination
  by (relation "measure (\<lambda>(E, language, categoryParam, page, pageCount, tot, s). MAX_PAGES - pageCount)")
     auto

text \<open>
  \<open>for (const batch of categoryBatches)\<close>: \<open>n\<close> is \<open>categoryBatches.length\<close> and \<open>i\<close> the
  position of the batch at hand, which is what \<open>categoryBatches.indexOf(batch)\<close> returns
  (the batches are distinct array objects).
\<close>

fun batch_loop ::
  "'w env \<Rightarrow> string \<Rightarrow> nat \<Rightarrow> nat \<Rightarrow> string list list \<Rightarrow> totals \<Rightarrow> 'w st
     \<Rightarrow> (js_error + totals) \<times> 'w st" where
  "batch_loop E language n i [] tot s = (Inr tot, s)"
| "batch_loop E language n i (batch # rest) tot s =
     (let categoryParam = join '','' batch;
          s1 = emit (Log LDebug (FetchingBatch categoryParam)) s
      in case page_loop E language categoryParam Null 0 tot s1 of
           (Inl e, s2) \<Rightarrow> (Inl e, s2)
         | (Inr tot', s2) \<Rightarrow>
             batch_loop E language n (i + 1) rest tot'
               (if int i < int n - 1 then emit (Sleep 1500) s2 else s2))"

text \<open>
  \<open>ingestNews\<close>: \<open>Inr None\<close> is the bare \<open>return;\<close> (the promise resolves to \<open>undefined\<close>),
  \<open>Inr (Some t)\<close> the returned \<open>{pages, upserted, modified}\<close>, \<open>Inl e\<close> the error rethrown
  by the \<open>catch\<close> block.
\<close>

definition ingestNews :: "'w env \<Rightarrow> 'w st \<Rightarrow> (js_error + totals option) \<times> 'w st" where
  "ingestNews E s =
     (if \<not> env_truthy (NEWSDATA_API_KEY E)
      then (Inr None, emit (Log LError KeyNotSet) s)
      else
        (let cats = allCategories (NEWS_FETCH_CATEGORIES E);
             language = env_or (NEWS_FETCH_LANGUAGE E) ''en'';
             batches = categoryBatches cats;
             s1 = emit (Log LInfo (Starting (length cats) (length batches))) s
         in case batch_loop E language (length batches) 0 batches
                   \<lparr>upserted = 0, modified = 0, pages = 0\<rparr> s1 of
              (Inr tot, s2) \<Rightarrow>
                (Inr (Some tot),
                 emit (Log LInfo (IngestionComplete (pages tot) (upserted tot) (modified tot))) s2)
            | (Inl e, s2) \<Rightarrow>
                (Inl e,
                 emit (Log LError
                        (case response e of
                           Some r \<Rightarrow> HttpError (resp_status r) (resp_data r)
                         | None \<Rightarrow> IngestionError (message e))) s2)))"

section \<open>The fields of the update document\<close>

text \<open>
  The fields of the \<open>$set\<close> document that the map callback defaults: the arrays (to
  \<open>[]\<close>) and the scalars (to \<open>null\<close>). Beside them stand \<open>duplicate\<close> (to \<open>false\<close>),
  \<open>pubDate\<close> (parsed) and \<open>title\<close> and \<open>link\<close> (passed on as they are).
\<close>

definition array_fields :: "string list" where
  "array_fields =
     [''keywords'', ''creator'', ''country'', ''category'', ''ai_tag'', ''ai_region'', ''ai_org'']"

definition scalar_fields :: "string list" where
  "scalar_fields =
     [''video_url'', ''description'', ''content'', ''pubDateTZ'', ''image_url'', ''source_id'',
      ''source_name'', ''source_url'', ''source_icon'', ''source_priority'', ''language'',
      ''sentiment'', ''sentiment_stats'', ''datatype'']"

text \<open>A record that carries no link, no description and no date.\<close>

definition record_without_link :: raw_record where
  "record_without_link =
     [(''article_id'', Str ''a1''),
      (''title'', Str ''New title''),
      (''keywords'', Arr [Str ''new''])]"

section \<open>The run guard (cronJob)\<close>

text \<open>
  The module variable \<open>isRunning\<close> is the guard. Each trigger tests and sets it before its
  first \<open>await\<close>, so the test and the set are one step of the event loop; the \<open>finally\<close>
  block clears it when the run's promise settles.
\<close>

definition already_in_progress :: js_error where
  "already_in_progress = \<lparr>message = ''Ingestion already in progress'', response = None\<rparr>"

text \<open>
  The cron callback up to \<open>await ingestNews()\<close>: whether the tick is skipped, and the
  flag afterwards.
\<close>

definition cron_enter :: "bool \<Rightarrow> bool \<times> bool" where
  "cron_enter isRunning = (if isRunning then (True, isRunning) else (False, True))"

text \<open>
  \<open>triggerManualIngestion\<close> up to \<open>await ingestNews()\<close>: the error thrown, if any, and the
  flag afterwards.
\<close>

definition manual_enter :: "bool \<Rightarrow> js_error option \<times> bool" where
  "manual_enter isRunning =
     (if isRunning then (Some already_in_progress, isRunning) else (None, True))"

text \<open>The \<open>finally\<close> block of either trigger: \<open>isRunning = false\<close>, whatever the outcome.\<close>

definition release :: "(js_error + totals option) \<Rightarrow> bool \<Rightarrow> bool" where
  "release outcome isRunning = False"

text \<open>
  The two triggers run from start to end, with nothing else arriving in between:
  \<open>triggerManualIngestion\<close> and the callback given to \<open>cron.schedule\<close>. The first
  component of the state is \<open>isRunning\<close>.
\<close>

definition triggerManualIngestion ::
  "'w env \<Rightarrow> bool \<times> 'w st \<Rightarrow> (js_error + totals option) \<times> (bool \<times> 'w st)" where
  "triggerManualIngestion E g =
     (case manual_enter (fst g) of
        (Some e, flag) \<Rightarrow> (Inl e, (flag, snd g))
      | (None, flag) \<Rightarrow>
          (let (r, s) = ingestNews E (snd g) in (r, (release r flag, s))))"

definition cron_callback :: "'w env \<Rightarrow> bool \<times> 'w st \<Rightarrow> bool \<times> 'w st" where
  "cron_callback E g =
     (case cron_enter (fst g) of
        (True, flag) \<Rightarrow> (flag, emit (Log LWarn SkippingRun) (snd g))
      | (False, flag) \<Rightarrow>
          (let (r, s) = ingestNews E (emit (Log LInfo CronTriggered) (snd g));
               s' = (case r of
                       Inl e \<Rightarrow> emit (Log LError (CronJobFailed (message e))) s
                     | Inr v \<Rightarrow> s)
           in (release r flag, s')))"

text \<open>
  Triggers arriving at arbitrary times, also while a run is pending. \<open>active\<close> counts the
  \<open>ingestNews()\<close> promises that have been started and have not settled; it is not a
  variable of the program. \<open>scheduled\<close> says whether \<open>cron.schedule\<close> has installed the
  callback (\<open>task\<close> is set): only then can a tick fire. \<open>Settle r\<close> is the pending run
  settling with outcome \<open>r\<close>.
\<close>

datatype caller = Cron | Manual

datatype attempt = Started | Skipped | Thrown js_error

datatype guard_event = Fire caller | Settle "js_error + totals option"

record guard_state =
  isRunning :: bool
  active :: nat
  scheduled :: bool

definition enter :: "caller \<Rightarrow> bool \<Rightarrow> attempt \<times> bool" where
  "enter c flag =
     (case c of
        Cron \<Rightarrow>
          (case cron_enter flag of
             (True, flag') \<Rightarrow> (Skipped, flag')
           | (False, flag') \<Rightarrow> (Started, flag'))
      | Manual \<Rightarrow>
          (case manual_enter flag of
             (Some e, flag') \<Rightarrow> (Thrown e, flag')
           | (None, flag') \<Rightarrow> (Started, flag')))"

definition guard_step :: "guard_event \<Rightarrow> guard_state \<Rightarrow> guard_state" where
  "guard_step ev g =
     (case ev of
        Fire c \<Rightarrow>
          if c = Cron \<and> \<not> scheduled g then g
          else
            (case enter c (isRunning g) of
               (Started, flag) \<Rightarrow> g\<lparr>isRunning := flag, active := active g + 1\<rparr>
             | (other, flag) \<Rightarrow> g\<lparr>isRunning := flag\<rparr>)
      | Settle r \<Rightarrow>
          if active g = 0 then g
          else g\<lparr>isRunning := release r (isRunning g), active := active g - 1\<rparr>)"

text \<open>
  The state \<open>startCronJob\<close> leaves behind. It is called once, before any trigger can
  arrive, with \<open>isRunning = false\<close> and no task. With a schedule that \<open>cron.validate\<close>
  rejects it returns at once: no callback is installed and no run is started. Otherwise
  it installs the callback and, when \<open>NODE_ENV\<close> is \<open>production\<close> or \<open>FETCH_ON_START\<close> is
  \<open>true\<close>, sets the flag without testing it and starts a run.
\<close>

definition startCronJob ::
  "(string \<Rightarrow> bool) \<Rightarrow> string option \<Rightarrow> string option \<Rightarrow> string option \<Rightarrow> guard_state" where
  "startCronJob validate CRON_SCHEDULE NODE_ENV FETCH_ON_START =
     (let schedule = env_or CRON_SCHEDULE ''0 */1 * * *''
      in if \<not> validate schedule
         then \<lparr>isRunning = False, active = 0, scheduled = False\<rparr>
         else if NODE_ENV = Some ''production'' \<or> FETCH_ON_START = Some ''true''
              then \<lparr>isRunning = True, active = 1, scheduled = True\<rparr>
              else \<lparr>isRunning = False, active = 0, scheduled = True\<rparr>)"

definition run_events :: "guard_event list \<Rightarrow> guard_state \<Rightarrow> guard_state" where
  "run_events evs g = foldl (\<lambda>g ev. guard_step ev g) g evs"

text \<open>The number of upstream requests, store writes and delays in a sequence of effects.\<close>

fun is_fetch :: "effect \<Rightarrow> bool" where
  "is_fetch (HttpGet url query) = True"
| "is_fetch e = False"

fun is_write :: "effect \<Rightarrow> bool" where
  "is_write (BulkWrite ops) = True"
| "is_write e = False"

fun is_sleep :: "effect \<Rightarrow> bool" where
  "is_sleep (Sleep ms) = True"
| "is_sleep e = False"

definition fetch_count :: "'w st \<Rightarrow> nat" where
  "fetch_count s = length (filter is_fetch (effects s))"

text \<open>The single-flight invariant: at most one run is pending, and the flag says whether one is.\<close>

definition guard_inv :: "guard_state \<Rightarrow> bool" where
  "guard_inv g = (active g \<le> 1 \<and> (isRunning g \<longleftrightarrow> active g = 1))"

section \<open>A scripted environment\<close>

text \<open>
  An environment to run the pipeline on concrete inputs: the outside world is the list of
  responses the upstream will give, one per request, in order (a transport error once the
  list is used up); the store reports every operation as an insertion.
\<close>

definition scripted_get ::
  "string \<Rightarrow> (string \<times> jsval) list \<Rightarrow> (js_error + payload) list
     \<Rightarrow> (js_error + payload) \<times> (js_error + payload) list" where
  "scripted_get url query w =
     (case w of
        [] \<Rightarrow> (Inl \<lparr>message = ''socket hang up'', response = None\<rparr>, [])
      | r # rs \<Rightarrow> (r, rs))"

definition counting_bulkWrite ::
  "update_one list \<Rightarrow> (js_error + payload) list
     \<Rightarrow> (js_error + bulk_result) \<times> (js_error + payload) list" where
  "counting_bulkWrite ops w = (Inr \<lparr>upsertedCount = length ops, modifiedCount = 0\<rparr>, w)"

definition scripted_env ::
  "string option \<Rightarrow> string option \<Rightarrow> (js_error + payload) list env" where
  "scripted_env key categories =
     \<lparr>NEWSDATA_BASE_URL = None,
      NEWSDATA_API_KEY = key,
      NEWS_FETCH_CATEGORIES = categories,
      NEWS_FETCH_LANGUAGE = None,
      http_get = scripted_get,
      bulkWrite = counting_bulkWrite,
      other_date_formats = (\<lambda>str. None)\<rparr>"

definition scripted_start :: "(js_error + payload) list \<Rightarrow> (js_error + payload) list st" where
  "scripted_start responses = \<lparr>world = responses, effects = []\<rparr>"

text \<open>Payloads for the script, and the accumulators at the start of a run.\<close>

definition more_page :: payload where
  "more_page = \<lparr>status = Str ''success'', results = None, nextPage = Str ''p''\<rparr>"

definition empty_last_page :: payload where
  "empty_last_page = \<lparr>status = Str ''success'', results = Some [], nextPage = Null\<rparr>"

definition error_payload :: payload where
  "error_payload = \<lparr>status = Str ''error'', results = None, nextPage = Undefined\<rparr>"

definition two_articles_page :: payload where
  "two_articles_page =
     \<lparr>status = Str ''success'',
      results = Some [[(''article_id'', Str ''a1''), (''title'', Str ''One'')],
                      [(''article_id'', Str ''a2''), (''title'', Str ''Two'')]],
      nextPage = Str ''p''\<rparr>"

definition rate_limited :: js_error where
  "rate_limited =
     \<lparr>message = ''Request failed with status code 429'',
      response = Some \<lparr>resp_status = 429, resp_data = Str ''slow down''\<rparr>\<rparr>"

definition no_totals :: totals where
  "no_totals = \<lparr>upserted = 0, modified = 0, pages = 0\<rparr>"

section \<open>Category batching: proofs\<close>

declare chunk_loop.simps [simp del]

lemma chunk_loop_concat:
  "concat (chunk_loop cs i batches) = concat batches @ drop i cs"
proof (induction cs i batches rule: chunk_loop.induct)
  case (1 cs i batches)
  show ?case
  proof (cases "i < length cs")
    case True
    have "take CATEGORY_BATCH_SIZE (drop i cs) @ drop (i + CATEGORY_BATCH_SIZE) cs = drop i cs"
      by (metis add.commute append_take_drop_id drop_drop)
    with True 1 show ?thesis
      by (subst chunk_loop.simps) (simp add: slice_def)
  next
    case False
    then show ?thesis by (subst chunk_loop.simps) simp
  qed
qed

lemma fifth_step: "0 < (n::nat) \<Longrightarrow> (n - 5 + 4) div 5 + 1 = (n + 4) div 5"
proof (cases "n \<le> 5")
  case True
  assume "0 < n"
  with True have "(n + 4) div 5 = 1" by (intro div_nat_eqI) simp_all
  with True show ?thesis by simp
next
  case False
  then obtain m where "n = m + 5" by (metis add.commute le_add_diff_inverse nat_le_linear)
  then show ?thesis by simp
qed

lemma chunk_loop_length:
  "length (chunk_loop cs i batches) = length batches + (length cs - i + 4) div 5"
proof (induction cs i batches rule: chunk_loop.induct)
  case (1 cs i batches)
  show ?case
  proof (cases "i < length cs")
    case True
    have "length (chunk_loop cs i batches) =
        length (chunk_loop cs (i + CATEGORY_BATCH_SIZE) (batches @ [slice cs i (i + CATEGORY_BATCH_SIZE)]))"
      using True by (subst chunk_loop.simps) simp
    also have "\<dots> = length batches + 1 + (length cs - i - 5 + 4) div 5"
      using 1 True by (simp add: CATEGORY_BATCH_SIZE_def)
    also have "\<dots> = length batches + (length cs - i + 4) div 5"
      using fifth_step [of "length cs - i"] True by simp
    finally show ?thesis .
  next
    case False
    then show ?thesis by (subst chunk_loop.simps) simp
  qed
qed

lemma chunk_loop_prefix:
  "k < length batches \<Longrightarrow> chunk_loop cs i batches ! k = batches ! k"
proof (induction cs i batches rule: chunk_loop.induct)
  case (1 cs i batches)
  show ?case
  proof (cases "i < length cs")
    case True
    then have "chunk_loop cs i batches ! k =
        chunk_loop cs (i + CATEGORY_BATCH_SIZE) (batches @ [slice cs i (i + CATEGORY_BATCH_SIZE)]) ! k"
      by (subst chunk_loop.simps) simp
    also have "\<dots> = (batches @ [slice cs i (i + CATEGORY_BATCH_SIZE)]) ! k"
      using 1 True by simp
    also have "\<dots> = batches ! k"
      using "1.prems" by (simp add: nth_append)
    finally show ?thesis .
  next
    case False
    then show ?thesis by (subst chunk_loop.simps) simp
  qed
qed

lemma chunk_loop_nth:
  "i = 5 * length batches \<Longrightarrow> length batches \<le> k \<Longrightarrow> k < length (chunk_loop cs i batches) \<Longrightarrow>
   chunk_loop cs i batches ! k = take 5 (drop (5 * k) cs)"
proof (induction cs i batches arbitrary: k rule: chunk_loop.induct)
  case (1 cs i batches)
  show ?case
  proof (cases "i < length cs")
    case True
    let ?b = "batches @ [slice cs i (i + CATEGORY_BATCH_SIZE)]"
    have eq: "chunk_loop cs i batches = chunk_loop cs (i + CATEGORY_BATCH_SIZE) ?b"
      using True by (subst chunk_loop.simps) simp
    show ?thesis
    proof (cases "k = length batches")
      case True
      have "chunk_loop cs (i + CATEGORY_BATCH_SIZE) ?b ! k = ?b ! k"
        using True by (intro chunk_loop_prefix) simp
      also have "\<dots> = slice cs i (i + CATEGORY_BATCH_SIZE)"
        using True by simp
      also have "\<dots> = take 5 (drop (5 * k) cs)"
        using True "1.prems"(1) by (simp add: slice_def CATEGORY_BATCH_SIZE_def)
      finally show ?thesis using eq by simp
    next
      case False
      have a: "i + CATEGORY_BATCH_SIZE = 5 * length ?b"
        using "1.prems"(1) by (simp add: CATEGORY_BATCH_SIZE_def)
      have b: "length ?b \<le> k" using False "1.prems"(2) by simp
      have c: "k < length (chunk_loop cs (i + CATEGORY_BATCH_SIZE) ?b)"
        using "1.prems"(3) eq by simp
      show ?thesis
        using "1.IH"[OF True a b c] eq by simp
    qed
  next
    case False
    then have "chunk_loop cs i batches = batches" by (subst chunk_loop.simps) simp
    with "1.prems" show ?thesis by simp
  qed
qed

lemma ceiling_fifth: "int ((n + 4) div 5) = \<lceil>real n / 5\<rceil>"
proof -
  have "\<lceil>real n / 5\<rceil> = \<lceil>of_int (int n) / of_int 5 :: real\<rceil>" by simp
  also have "\<dots> = - (- int n div 5)" by (rule ceiling_divide_eq_div)
  also have "\<dots> = int ((n + 4) div 5)" by (simp add: zdiv_int)
  finally show ?thesis by simp
qed

lemma categoryBatches_length: "length (categoryBatches cs) = (length cs + 4) div 5"
  by (simp add: categoryBatches_def chunk_loop_length)

lemma categoryBatches_nth:
  "k < length (categoryBatches cs) \<Longrightarrow> categoryBatches cs ! k = take 5 (drop (5 * k) cs)"
  unfolding categoryBatches_def by (rule chunk_loop_nth) simp_all

lemma categoryBatches_position:
  assumes "j < length cs"
  shows "categoryBatches cs ! (j div 5) ! (j mod 5) = cs ! j"
proof -
  have "j div 5 \<le> (length cs - 1) div 5" using assms by (intro div_le_mono) simp
  also have "\<dots> < (length cs - 1) div 5 + 1" by simp
  also have "\<dots> = (length cs - 1 + 5) div 5" by simp
  also have "length cs - 1 + 5 = length cs + 4" using assms by simp
  finally have "j div 5 < (length cs + 4) div 5" .
  then have "categoryBatches cs ! (j div 5) = take 5 (drop (5 * (j div 5)) cs)"
    by (simp add: categoryBatches_nth categoryBatches_length)
  moreover have "5 * (j div 5) + j mod 5 = j" by simp
  moreover have "5 * (j div 5) + j mod 5 < length cs" using assms by simp
  ultimately show ?thesis by (simp del: mult_div_mod_eq)
qed

lemma six_categories:
  "categoryBatches (allCategories (Some ''technology,business,science,health,sports,entertainment''))
     = [[''technology'', ''business'', ''science'', ''health'', ''sports''], [''entertainment'']]"
  by code_simp

lemma seven_letters:
  "categoryBatches [''a'', ''b'', ''c'', ''d'', ''e'', ''f'', ''g'']
     = [[''a'', ''b'', ''c'', ''d'', ''e''], [''f'', ''g'']]"
  by code_simp

text \<open>
  C2. For every category list \<open>cs\<close> of length \<open>N\<close> the orchestrator builds exactly
  \<open>\<lceil>N / 5\<rceil>\<close> batches; the batches laid end to end are \<open>cs\<close> itself, so the order is kept and
  every position of the list lies in exactly one batch: position \<open>j\<close> is entry \<open>j mod 5\<close> of
  batch \<open>j div 5\<close>. The configured list of six categories gives two batches, of sizes 5 and 1.
\<close>

theorem category_batches_partition:
  "int (length (categoryBatches cs)) = \<lceil>real (length cs) / 5\<rceil>
   \<and> concat (categoryBatches cs) = cs
   \<and> (\<forall>j < length cs. categoryBatches cs ! (j div 5) ! (j mod 5) = cs ! j)
   \<and> map length (categoryBatches (allCategories
        (Some ''technology,business,science,health,sports,entertainment''))) = [5, 1]"
  by (simp add: categoryBatches_length ceiling_fifth categoryBatches_position six_categories)
     (simp add: categoryBatches_def chunk_loop_concat)

theorem category_batches_partition_witness:
  "(5::nat) < length [''a'', ''b'', ''c'', ''d'', ''e'', ''f'', ''g'']
   \<and> categoryBatches [''a'', ''b'', ''c'', ''d'', ''e'', ''f'', ''g''] ! (5 div 5) ! (5 mod 5) = ''f''
   \<and> length (categoryBatches [''a'', ''b'', ''c'', ''d'', ''e'', ''f'', ''g'']) = 2"
  using category_batches_partition [of "[''a'', ''b'', ''c'', ''d'', ''e'', ''f'', ''g'']"]
  by (simp add: seven_letters)

section \<open>The run guard: proofs\<close>

lemma manual_enter_eq:
  "manual_enter flag = (if flag then (Some already_in_progress, True) else (None, True))"
  by (simp add: manual_enter_def)

lemma cron_enter_eq: "cron_enter flag = (if flag then (True, True) else (False, True))"
  by (simp add: cron_enter_def)

lemma enter_eq:
  "enter c flag =
     (if flag then (case c of Cron \<Rightarrow> Skipped | Manual \<Rightarrow> Thrown already_in_progress, True)
      else (Started, True))"
  by (cases c) (simp_all add: enter_def manual_enter_eq cron_enter_eq)

lemma guard_step_manual:
  "guard_step (Fire Manual) g =
     (if isRunning g then g else g\<lparr>isRunning := True, active := active g + 1\<rparr>)"
  by (simp add: guard_step_def enter_eq)

lemma guard_step_cron:
  "guard_step (Fire Cron) g =
     (if isRunning g \<or> \<not> scheduled g then g
      else g\<lparr>isRunning := True, active := active g + 1\<rparr>)"
  by (simp add: guard_step_def enter_eq)

lemma guard_step_settle:
  "guard_step (Settle r) g =
     (if active g = 0 then g else g\<lparr>isRunning := False, active := active g - 1\<rparr>)"
  by (simp add: guard_step_def release_def)

lemma guard_inv_step: "guard_inv g \<Longrightarrow> guard_inv (guard_step ev g)"
proof (cases ev)
  case (Fire c)
  assume "guard_inv g"
  then show ?thesis
    using Fire by (cases c) (auto simp: guard_inv_def guard_step_manual guard_step_cron)
next
  case (Settle r)
  assume "guard_inv g"
  then show ?thesis
    using Settle by (auto simp: guard_inv_def guard_step_settle)
qed

lemma guard_inv_run: "guard_inv g \<Longrightarrow> guard_inv (run_events evs g)"
  unfolding run_events_def
  by (induction evs arbitrary: g) (simp_all add: guard_inv_step)

lemma guard_inv_start: "guard_inv (startCronJob validate sch env fos)"
  by (simp add: guard_inv_def startCronJob_def Let_def)

lemma manual_free:
  "triggerManualIngestion E (False, s) = (fst (ingestNews E s), (False, snd (ingestNews E s)))"
  by (simp add: triggerManualIngestion_def manual_enter_eq release_def case_prod_beta)

lemma manual_busy:
  "triggerManualIngestion E (True, s) = (Inl already_in_progress, (True, s))"
  by (simp add: triggerManualIngestion_def manual_enter_eq)

lemma cron_free:
  "cron_callback E (False, s) =
     (False,
      case ingestNews E (emit (Log LInfo CronTriggered) s) of
        (Inl e, s') \<Rightarrow> emit (Log LError (CronJobFailed (message e))) s'
      | (Inr v, s') \<Rightarrow> s')"
  by (simp add: cron_callback_def cron_enter_eq release_def Let_def split: prod.splits sum.splits)

lemma cron_busy: "cron_callback E (True, s) = (True, emit (Log LWarn SkippingRun) s)"
  by (simp add: cron_callback_def cron_enter_eq)

lemma no_key_run:
  "ingestNews (scripted_env None None) (scripted_start [])
     = (Inr None, \<lparr>world = [], effects = [Log LError KeyNotSet]\<rparr>)"
  by code_simp

lemma no_key_second_run:
  "ingestNews (scripted_env None None) \<lparr>world = [], effects = [Log LError KeyNotSet]\<rparr>
     = (Inr None, \<lparr>world = [], effects = [Log LError KeyNotSet, Log LError KeyNotSet]\<rparr>)"
  by code_simp

lemma no_key_cron_run:
  "ingestNews (scripted_env None None) (emit (Log LInfo CronTriggered) (scripted_start []))
     = (Inr None, \<lparr>world = [], effects = [Log LInfo CronTriggered, Log LError KeyNotSet]\<rparr>)"
  by code_simp

lemma start_states:
  "startCronJob (\<lambda>schedule. True) None None None
     = \<lparr>isRunning = False, active = 0, scheduled = True\<rparr>"
  "startCronJob (\<lambda>schedule. True) None (Some ''production'') None
     = \<lparr>isRunning = True, active = 1, scheduled = True\<rparr>"
  "startCronJob (\<lambda>schedule. False) None (Some ''production'') None
     = \<lparr>isRunning = False, active = 0, scheduled = False\<rparr>"
  by (simp_all add: startCronJob_def)

text \<open>
  C1. The manual trigger and the cron callback test the one flag \<open>isRunning\<close>. With the
  flag set, the manual trigger throws "Ingestion already in progress" and the cron
  callback logs and skips, and nothing else changes. With the flag clear, either of them
  runs \<open>ingestNews\<close> and leaves the flag clear afterwards, whether the run returned or
  threw, so that the trigger after it runs \<open>ingestNews\<close> again. Taken apart at the
  \<open>await\<close>: entering sets the flag exactly when it was clear, the \<open>finally\<close> block clears
  it whatever the outcome, and over every sequence of triggers and settlements after
  \<open>startCronJob\<close> at most one run is pending, the flag being set exactly while one is.
\<close>

theorem run_guard_single_flight:
  "triggerManualIngestion E (True, s) = (Inl already_in_progress, (True, s))
   \<and> triggerManualIngestion E (False, s)
       = (fst (ingestNews E s), (False, snd (ingestNews E s)))
   \<and> cron_callback E (True, s) = (True, emit (Log LWarn SkippingRun) s)
   \<and> cron_callback E (False, s)
       = (False,
          case ingestNews E (emit (Log LInfo CronTriggered) s) of
            (Inl e, s') \<Rightarrow> emit (Log LError (CronJobFailed (message e))) s'
          | (Inr v, s') \<Rightarrow> s')
   \<and> triggerManualIngestion E (snd (triggerManualIngestion E (False, s)))
       = (fst (ingestNews E (snd (ingestNews E s))),
          (False, snd (ingestNews E (snd (ingestNews E s)))))
   \<and> triggerManualIngestion E (cron_callback E (False, s))
       = (fst (ingestNews E (snd (cron_callback E (False, s)))),
          (False, snd (ingestNews E (snd (cron_callback E (False, s))))))
   \<and> manual_enter flag = (if flag then (Some already_in_progress, True) else (None, True))
   \<and> cron_enter flag = (if flag then (True, True) else (False, True))
   \<and> release r flag = False
   \<and> guard_step (Fire Manual) g
       = (if isRunning g then g else g\<lparr>isRunning := True, active := active g + 1\<rparr>)
   \<and> guard_step (Fire Cron) g
       = (if isRunning g \<or> \<not> scheduled g then g
          else g\<lparr>isRunning := True, active := active g + 1\<rparr>)
   \<and> guard_step (Settle r) g
       = (if active g = 0 then g else g\<lparr>isRunning := False, active := active g - 1\<rparr>)
   \<and> active (run_events evs (startCronJob validate CRON_SCHEDULE NODE_ENV FETCH_ON_START)) \<le> 1
   \<and> isRunning (run_events evs (startCronJob validate CRON_SCHEDULE NODE_ENV FETCH_ON_START))
       = (active (run_events evs (startCronJob validate CRON_SCHEDULE NODE_ENV FETCH_ON_START)) = 1)"
proof -
  have "guard_inv (run_events evs (startCronJob validate CRON_SCHEDULE NODE_ENV FETCH_ON_START))"
    by (rule guard_inv_run [OF guard_inv_start])
  then have inv:
    "active (run_events evs (startCronJob validate CRON_SCHEDULE NODE_ENV FETCH_ON_START)) \<le> 1
     \<and> isRunning (run_events evs (startCronJob validate CRON_SCHEDULE NODE_ENV FETCH_ON_START))
       = (active (run_events evs (startCronJob validate CRON_SCHEDULE NODE_ENV FETCH_ON_START)) = 1)"
    by (simp add: guard_inv_def)
  have again: "triggerManualIngestion E (snd (triggerManualIngestion E (False, s)))
       = (fst (ingestNews E (snd (ingestNews E s))),
          (False, snd (ingestNews E (snd (ingestNews E s)))))"
    by (simp add: manual_free)
  have "fst (cron_callback E (False, s)) = False"
    by (simp add: cron_free)
  then have "cron_callback E (False, s) = (False, snd (cron_callback E (False, s)))"
    by (metis prod.collapse)
  then have after_cron: "triggerManualIngestion E (cron_callback E (False, s))
       = (fst (ingestNews E (snd (cron_callback E (False, s)))),
          (False, snd (ingestNews E (snd (cron_callback E (False, s))))))"
    using manual_free [of E "snd (cron_callback E (False, s))"] by simp
  have rel: "release r flag = False" by (simp add: release_def)
  show ?thesis
    by (intro conjI manual_busy manual_free cron_busy cron_free again after_cron
        manual_enter_eq cron_enter_eq rel guard_step_manual guard_step_cron guard_step_settle
        inv [THEN conjunct1] inv [THEN conjunct2])
qed

theorem run_guard_single_flight_witness:
  "triggerManualIngestion (scripted_env None None) (False, scripted_start [])
     = (Inr None, (False, \<lparr>world = [], effects = [Log LError KeyNotSet]\<rparr>))
   \<and> triggerManualIngestion (scripted_env None None)
        (snd (triggerManualIngestion (scripted_env None None) (False, scripted_start [])))
     = (Inr None, (False, \<lparr>world = [], effects = [Log LError KeyNotSet, Log LError KeyNotSet]\<rparr>))
   \<and> cron_callback (scripted_env None None) (False, scripted_start [])
     = (False, \<lparr>world = [], effects = [Log LInfo CronTriggered, Log LError KeyNotSet]\<rparr>)
   \<and> triggerManualIngestion (scripted_env None None) (True, scripted_start [])
     = (Inl already_in_progress, (True, scripted_start []))
   \<and> run_events [Fire Manual] (startCronJob (\<lambda>schedule. True) None None None)
     = \<lparr>isRunning = True, active = 1, scheduled = True\<rparr>
   \<and> run_events [Fire Manual, Fire Cron, Fire Manual]
        (startCronJob (\<lambda>schedule. True) None None None)
     = \<lparr>isRunning = True, active = 1, scheduled = True\<rparr>
   \<and> run_events [Fire Manual, Settle (Inl already_in_progress)]
        (startCronJob (\<lambda>schedule. True) None None None)
     = \<lparr>isRunning = False, active = 0, scheduled = True\<rparr>
   \<and> run_events [Fire Manual, Settle (Inr None), Fire Cron]
        (startCronJob (\<lambda>schedule. True) None None None)
     = \<lparr>isRunning = True, active = 1, scheduled = True\<rparr>
   \<and> run_events [Fire Cron] (startCronJob (\<lambda>schedule. True) None (Some ''production'') None)
     = \<lparr>isRunning = True, active = 1, scheduled = True\<rparr>
   \<and> run_events [Fire Cron] (startCronJob (\<lambda>schedule. False) None (Some ''production'') None)
     = \<lparr>isRunning = False, active = 0, scheduled = False\<rparr>"
proof -
  note t = run_guard_single_flight [where E = "scripted_env None None" and s = "scripted_start []"]
  note t2 = run_guard_single_flight
    [where E = "scripted_env None None"
       and s = "\<lparr>world = [], effects = [Log LError KeyNotSet]\<rparr>", THEN conjunct2, THEN conjunct1]
  note step =
    run_guard_single_flight [where r = "Inr None", THEN conjunct2, THEN conjunct2, THEN conjunct2,
      THEN conjunct2, THEN conjunct2, THEN conjunct2, THEN conjunct2, THEN conjunct2,
      THEN conjunct2]
  note step_err =
    run_guard_single_flight [where r = "Inl already_in_progress", THEN conjunct2, THEN conjunct2,
      THEN conjunct2, THEN conjunct2, THEN conjunct2, THEN conjunct2, THEN conjunct2,
      THEN conjunct2, THEN conjunct2]
  have m: "guard_step (Fire Manual) g
       = (if isRunning g then g else g\<lparr>isRunning := True, active := active g + 1\<rparr>)" for g
    using step [of g] by blast
  have c: "guard_step (Fire Cron) g
       = (if isRunning g \<or> \<not> scheduled g then g
          else g\<lparr>isRunning := True, active := active g + 1\<rparr>)" for g
    using step [of g] by blast
  have st: "guard_step (Settle r) g
       = (if active g = 0 then g else g\<lparr>isRunning := False, active := active g - 1\<rparr>)"
    if "r = Inr None \<or> r = Inl already_in_progress" for g r
    using that step [of g] step_err [of g] by blast
  show ?thesis
    using t t2 by (simp add: no_key_run no_key_second_run no_key_cron_run start_states
        run_events_def m c st)
qed

section \<open>Pagination: proofs\<close>

declare page_loop.simps [simp del]

lemma fetch_count_emit:
  "fetch_count (emit ev s) = fetch_count s + (if is_fetch ev then 1 else 0)"
  by (simp add: fetch_count_def emit_def)

lemma fetch_count_fetchNewsPage:
  "fetchNewsPage E params s = (r, s1) \<Longrightarrow> fetch_count s1 = fetch_count s + 1"
  by (auto simp: fetchNewsPage_def fetch_count_def Let_def split: prod.splits)

lemma fetch_count_upsertArticles:
  "upsertArticles E articles s = (r, s1) \<Longrightarrow> fetch_count s1 = fetch_count s"
  by (auto simp: upsertArticles_def fetch_count_def Let_def split: prod.splits sum.splits if_splits)

lemma fetch_count_page_body:
  "fetch_count (case page_body E language categoryParam page pageCount s of
       Raised e s' \<Rightarrow> s' | Aborted s' \<Rightarrow> s' | Stored data c s' \<Rightarrow> s') = fetch_count s + 1"
  by (auto simp: page_body_def Let_def fetch_count_emit
      dest!: fetch_count_fetchNewsPage fetch_count_upsertArticles
      split: prod.splits sum.splits)

lemma page_loop_fetch_bound:
  "pageCount < MAX_PAGES \<Longrightarrow>
   fetch_count (snd (page_loop E language categoryParam page pageCount tot s)) + pageCount
     \<le> fetch_count s + MAX_PAGES"
proof (induction E language categoryParam page pageCount tot s rule: page_loop.induct)
  case (1 E language categoryParam page pageCount tot s)
  note body = fetch_count_page_body [of E language categoryParam page pageCount s]
  show ?case
  proof (cases "page_body E language categoryParam page pageCount s")
    case (Raised e s')
    with body "1.prems" show ?thesis by (subst page_loop.simps) simp
  next
    case (Aborted s')
    with body "1.prems" show ?thesis by (subst page_loop.simps) simp
  next
    case (Stored data c s')
    show ?thesis
    proof (cases "truthy (js_or (nextPage data) Null) \<and> pageCount + 1 < MAX_PAGES")
      case True
      have "fetch_count (snd (page_loop E language categoryParam (js_or (nextPage data) Null)
                (pageCount + 1) (add_page tot c) (emit (Sleep 1000) s'))) + (pageCount + 1)
            \<le> fetch_count (emit (Sleep 1000) s') + MAX_PAGES"
        using "1.IH" [OF Stored refl refl] True by simp
      moreover have "fetch_count (emit (Sleep 1000) s') = fetch_count s + 1"
        using body Stored by (simp add: fetch_count_emit)
      moreover have "page_loop E language categoryParam page pageCount tot s =
          page_loop E language categoryParam (js_or (nextPage data) Null)
                (pageCount + 1) (add_page tot c) (emit (Sleep 1000) s')"
        using Stored True by (subst page_loop.simps) (simp add: Let_def)
      ultimately show ?thesis by simp
    next
      case False
      with body Stored "1.prems" show ?thesis by (subst page_loop.simps) (auto simp: Let_def)
    qed
  qed
qed

lemma batch_loop_fetch_bound:
  "fetch_count (snd (batch_loop E language n i batches tot s))
     \<le> fetch_count s + MAX_PAGES * length batches"
proof (induction batches arbitrary: i tot s)
  case Nil
  then show ?case by simp
next
  case (Cons batch rest)
  let ?s1 = "emit (Log LDebug (FetchingBatch (join '','' batch))) s"
  obtain r s2 where pl: "page_loop E language (join '','' batch) Null 0 tot ?s1 = (r, s2)"
    by (cases "page_loop E language (join '','' batch) Null 0 tot ?s1")
  have b: "fetch_count s2 \<le> fetch_count s + MAX_PAGES"
    using page_loop_fetch_bound [of 0 E language "join '','' batch" Null tot ?s1] pl
    by (simp add: fetch_count_emit MAX_PAGES_def)
  show ?case
  proof (cases r)
    case (Inl e)
    with pl b show ?thesis by (simp add: Let_def)
  next
    case (Inr tot')
    let ?s3 = "if int i < int n - 1 then emit (Sleep 1500) s2 else s2"
    have "fetch_count (snd (batch_loop E language n (i + 1) rest tot' ?s3))
        \<le> fetch_count ?s3 + MAX_PAGES * length rest"
      by (rule Cons.IH)
    moreover have "fetch_count ?s3 = fetch_count s2" by (simp add: fetch_count_emit)
    ultimately show ?thesis using pl Inr b by (simp add: Let_def)
  qed
qed

lemma page_loop_stop:
  "page_body E language categoryParam page pageCount s = Stored data c s' \<Longrightarrow>
   \<not> truthy (nextPage data) \<or> MAX_PAGES \<le> pageCount + 1 \<Longrightarrow>
   page_loop E language categoryParam page pageCount tot s = (Inr (add_page tot c), s')"
  by (subst page_loop.simps) (auto simp: Let_def js_or_def)

lemma page_loop_continue:
  "page_body E language categoryParam page pageCount s = Stored data c s' \<Longrightarrow>
   truthy (nextPage data) \<Longrightarrow> pageCount + 1 < MAX_PAGES \<Longrightarrow>
   page_loop E language categoryParam page pageCount tot s =
     page_loop E language categoryParam (nextPage data) (pageCount + 1) (add_page tot c)
       (emit (Sleep 1000) s')"
  by (subst page_loop.simps) (auto simp: Let_def js_or_def)

lemma page_loop_raised:
  "page_body E language categoryParam page pageCount s = Raised e s' \<Longrightarrow>
   page_loop E language categoryParam page pageCount tot s = (Inl e, s')"
  by (subst page_loop.simps) simp

lemma page_loop_aborted:
  "page_body E language categoryParam page pageCount s = Aborted s' \<Longrightarrow>
   page_loop E language categoryParam page pageCount tot s = (Inr tot, s')"
  by (subst page_loop.simps) simp

text \<open>
  C3. The page loop of a batch, entered with no token and a page count of 0, sends at most
  3 requests, whatever the upstream answers, and a run over \<open>k\<close> batches at most \<open>3 * k\<close>.
  After a stored page the loop ends when the payload carries no (truthy) continuation token
  or when the page just counted is the third, whichever comes first; with a token and fewer
  than three pages it waits a second and fetches the next page with that token.
\<close>

theorem pagination_stops_at_cap:
  "fetch_count (snd (page_loop E language categoryParam Null 0 tot s)) \<le> fetch_count s + 3
   \<and> fetch_count (snd (batch_loop E language n i batches tot s))
        \<le> fetch_count s + 3 * length batches
   \<and> (page_body E language categoryParam page pageCount s = Stored data c s' \<longrightarrow>
        (\<not> truthy (nextPage data) \<or> 3 \<le> pageCount + 1 \<longrightarrow>
           page_loop E language categoryParam page pageCount tot s
             = (Inr (add_page tot c), s'))
        \<and> (truthy (nextPage data) \<and> pageCount + 1 < 3 \<longrightarrow>
           page_loop E language categoryParam page pageCount tot s
             = page_loop E language categoryParam (nextPage data) (pageCount + 1)
                 (add_page tot c) (emit (Sleep 1000) s')))"
proof -
  have a: "fetch_count (snd (page_loop E language categoryParam Null 0 tot s)) \<le> fetch_count s + 3"
    using page_loop_fetch_bound [of 0 E language categoryParam Null tot s]
    by (simp add: MAX_PAGES_def)
  have b: "fetch_count (snd (batch_loop E language n i batches tot s))
        \<le> fetch_count s + 3 * length batches"
    using batch_loop_fetch_bound [of E language n i batches tot s] by (simp add: MAX_PAGES_def)
  show ?thesis
    using a b page_loop_stop [of E language categoryParam page pageCount s data c s' tot]
      page_loop_continue [of E language categoryParam page pageCount s data c s' tot]
    by (simp add: MAX_PAGES_def)
qed

lemma third_page_stored:
  "page_body (scripted_env (Some ''k'') None) ''en'' ''technology'' (Str ''p'') 2
     (scripted_start [Inr more_page, Inr more_page])
   = Stored more_page \<lparr>upserted = 0, modified = 0\<rparr>
       \<lparr>world = [Inr more_page],
        effects = [HttpGet ''https://newsdata.io/api/1/news''
                     [(''apikey'', Str ''k''), (''language'', Str ''en''),
                      (''category'', Str ''technology''), (''page'', Str ''p'')],
                   Log LDebug (FetchedArticles 0 3)]\<rparr>"
  by code_simp

lemma first_page_stored:
  "page_body (scripted_env (Some ''k'') None) ''en'' ''technology'' Null 0
     (scripted_start [Inr more_page, Inr empty_last_page])
   = Stored more_page \<lparr>upserted = 0, modified = 0\<rparr>
       \<lparr>world = [Inr empty_last_page],
        effects = [HttpGet ''https://newsdata.io/api/1/news''
                     [(''apikey'', Str ''k''), (''language'', Str ''en''),
                      (''category'', Str ''technology'')],
                   Log LDebug (FetchedArticles 0 1)]\<rparr>"
  by code_simp

lemma more_page_token: "truthy (nextPage more_page)"
  by code_simp

theorem pagination_stops_at_cap_witness:
  "page_loop (scripted_env (Some ''k'') None) ''en'' ''technology'' (Str ''p'') 2 no_totals
     (scripted_start [Inr more_page, Inr more_page])
   = (Inr (add_page no_totals \<lparr>upserted = 0, modified = 0\<rparr>),
       \<lparr>world = [Inr more_page],
        effects = [HttpGet ''https://newsdata.io/api/1/news''
                     [(''apikey'', Str ''k''), (''language'', Str ''en''),
                      (''category'', Str ''technology''), (''page'', Str ''p'')],
                   Log LDebug (FetchedArticles 0 3)]\<rparr>)
   \<and> page_loop (scripted_env (Some ''k'') None) ''en'' ''technology'' Null 0 no_totals
       (scripted_start [Inr more_page, Inr empty_last_page])
     = page_loop (scripted_env (Some ''k'') None) ''en'' ''technology'' (nextPage more_page) 1
         (add_page no_totals \<lparr>upserted = 0, modified = 0\<rparr>)
         (emit (Sleep 1000)
           \<lparr>world = [Inr empty_last_page],
            effects = [HttpGet ''https://newsdata.io/api/1/news''
                         [(''apikey'', Str ''k''), (''language'', Str ''en''),
                          (''category'', Str ''technology'')],
                       Log LDebug (FetchedArticles 0 1)]\<rparr>)"
proof -
  note stop = pagination_stops_at_cap
    [where E = "scripted_env (Some ''k'') None" and language = "''en''"
       and categoryParam = "''technology''" and page = "Str ''p''" and pageCount = 2
       and s = "scripted_start [Inr more_page, Inr more_page]" and data = more_page
       and c = "\<lparr>upserted = 0, modified = 0\<rparr>" and tot = no_totals
       and n = 0 and i = 0 and batches = "[]"]
  note continue = pagination_stops_at_cap
    [where E = "scripted_env (Some ''k'') None" and language = "''en''"
       and categoryParam = "''technology''" and page = Null and pageCount = 0
       and s = "scripted_start [Inr more_page, Inr empty_last_page]" and data = more_page
       and c = "\<lparr>upserted = 0, modified = 0\<rparr>" and tot = no_totals
       and n = 0 and i = 0 and batches = "[]"]
  show ?thesis
    using stop continue more_page_token
    by (simp add: third_page_stored first_page_stored)
qed

section \<open>The orchestrator: proofs\<close>

lemma batch_loop_next:
  "page_loop E language (join '','' batch) Null 0 tot
      (emit (Log LDebug (FetchingBatch (join '','' batch))) s) = (Inr tot', s2) \<Longrightarrow>
   batch_loop E language n i (batch # rest) tot s =
     batch_loop E language n (i + 1) rest tot'
       (if int i < int n - 1 then emit (Sleep 1500) s2 else s2)"
  by (simp add: Let_def)

lemma batch_loop_raise:
  "page_loop E language (join '','' batch) Null 0 tot
      (emit (Log LDebug (FetchingBatch (join '','' batch))) s) = (Inl e, s2) \<Longrightarrow>
   batch_loop E language n i (batch # rest) tot s = (Inl e, s2)"
  by (simp add: Let_def)

lemma page_body_non_success:
  assumes "http_get E (news_url E) (with_apikey E (page_params language categoryParam page))
             (world s) = (Inr data, w)"
    and "status data \<noteq> Str ''success''"
  shows "page_body E language categoryParam page pageCount s =
           Aborted \<lparr>world = w,
                    effects = effects s @
                      [HttpGet (news_url E) (with_apikey E (page_params language categoryParam page)),
                       Log LError (ApiError categoryParam data)]\<rparr>"
  using assms by (simp add: page_body_def fetchNewsPage_def Let_def emit_def)

lemma page_body_transport_failure:
  assumes "http_get E (news_url E) (with_apikey E (page_params language categoryParam page))
             (world s) = (Inl e, w)"
  shows "page_body E language categoryParam page pageCount s =
           Raised e \<lparr>world = w,
                    effects = effects s @
                      [HttpGet (news_url E) (with_apikey E (page_params language categoryParam page))]\<rparr>"
  using assms by (simp add: page_body_def fetchNewsPage_def Let_def emit_def)

lemma page_body_empty:
  assumes "http_get E (news_url E) (with_apikey E (page_params language categoryParam page))
             (world s) = (Inr data, w)"
    and "status data = Str ''success''"
    and "results data = None \<or> results data = Some []"
  shows "page_body E language categoryParam page pageCount s =
           Stored data \<lparr>upserted = 0, modified = 0\<rparr>
             \<lparr>world = w,
              effects = effects s @
                [HttpGet (news_url E) (with_apikey E (page_params language categoryParam page)),
                 Log LDebug (FetchedArticles 0 (pageCount + 1))]\<rparr>"
  using assms
  by (auto simp: page_body_def fetchNewsPage_def Let_def emit_def upsertArticles_def)

lemma add_page_zero: "add_page tot \<lparr>upserted = 0, modified = 0\<rparr> = tot\<lparr>pages := pages tot + 1\<rparr>"
  by (simp add: add_page_def)

lemma world_emit: "world (emit ev s) = world s"
  by (simp add: emit_def)

lemma effects_emit: "effects (emit ev s) = effects s @ [ev]"
  by (simp add: emit_def)

text \<open>
  C6 (as amended). When the payload of a request reports a status other than
  \<open>'success'\<close>, the page loop logs the whole payload at error level and ends without
  raising, with the accumulators as they were before that request: the request adds
  nothing to \<open>pages\<close>, \<open>upserted\<close> or \<open>modified\<close> and writes nothing to the store. When it is
  the first request of a batch, the batch adds nothing at all, and the run goes on with the
  remaining batches (after the inter-batch delay, when batches remain).
\<close>

theorem non_success_aborts_batch:
  "(http_get E (news_url E) (with_apikey E (page_params language categoryParam page)) (world s)
       = (Inr data, w)
     \<and> status data \<noteq> Str ''success'' \<longrightarrow>
     page_loop E language categoryParam page pageCount tot s
       = (Inr tot,
          \<lparr>world = w,
           effects = effects s @
             [HttpGet (news_url E) (with_apikey E (page_params language categoryParam page)),
              Log LError (ApiError categoryParam data)]\<rparr>))
   \<and> (http_get E (news_url E) (with_apikey E (page_params language (join '','' batch) Null))
         (world s) = (Inr data, w)
       \<and> status data \<noteq> Str ''success'' \<longrightarrow>
       batch_loop E language n i (batch # rest) tot s
         = batch_loop E language n (i + 1) rest tot
             (let s' = \<lparr>world = w,
                        effects = effects s @
                          [Log LDebug (FetchingBatch (join '','' batch)),
                           HttpGet (news_url E)
                             (with_apikey E (page_params language (join '','' batch) Null)),
                           Log LError (ApiError (join '','' batch) data)]\<rparr>
              in if int i < int n - 1 then emit (Sleep 1500) s' else s'))"
proof (intro conjI impI)
  assume a: "http_get E (news_url E) (with_apikey E (page_params language categoryParam page)) (world s)
       = (Inr data, w) \<and> status data \<noteq> Str ''success''"
  show "page_loop E language categoryParam page pageCount tot s
       = (Inr tot,
          \<lparr>world = w,
           effects = effects s @
             [HttpGet (news_url E) (with_apikey E (page_params language categoryParam page)),
              Log LError (ApiError categoryParam data)]\<rparr>)"
    using a by (intro page_loop_aborted page_body_non_success) simp_all
next
  let ?cp = "join '','' batch"
  let ?s0 = "emit (Log LDebug (FetchingBatch ?cp)) s"
  assume a: "http_get E (news_url E) (with_apikey E (page_params language ?cp Null))
         (world s) = (Inr data, w) \<and> status data \<noteq> Str ''success''"
  then have "page_body E language ?cp Null 0 ?s0 =
      Aborted \<lparr>world = w, effects = effects ?s0 @
                      [HttpGet (news_url E) (with_apikey E (page_params language ?cp Null)),
                       Log LError (ApiError ?cp data)]\<rparr>"
    by (intro page_body_non_success) (simp_all add: world_emit)
  then have "page_loop E language ?cp Null 0 tot ?s0 =
      (Inr tot, \<lparr>world = w, effects = effects ?s0 @
                      [HttpGet (news_url E) (with_apikey E (page_params language ?cp Null)),
                       Log LError (ApiError ?cp data)]\<rparr>)"
    by (rule page_loop_aborted)
  from batch_loop_next [OF this]
  show "batch_loop E language n i (batch # rest) tot s
         = batch_loop E language n (i + 1) rest tot
             (let s' = \<lparr>world = w,
                        effects = effects s @
                          [Log LDebug (FetchingBatch ?cp),
                           HttpGet (news_url E)
                             (with_apikey E (page_params language ?cp Null)),
                           Log LError (ApiError ?cp data)]\<rparr>
              in if int i < int n - 1 then emit (Sleep 1500) s' else s')"
    by (simp add: effects_emit Let_def)
qed

theorem non_success_aborts_batch_witness:
  "status error_payload \<noteq> Str ''success''
   \<and> batch_loop (scripted_env (Some ''k'') None) ''en'' 2 0 [[''technology''], [''business'']]
       no_totals (scripted_start [Inr error_payload, Inr empty_last_page])
     = (Inr \<lparr>upserted = 0, modified = 0, pages = 1\<rparr>,
        \<lparr>world = [],
         effects =
           [Log LDebug (FetchingBatch ''technology''),
            HttpGet ''https://newsdata.io/api/1/news''
              [(''apikey'', Str ''k''), (''language'', Str ''en''),
               (''category'', Str ''technology'')],
            Log LError (ApiError ''technology'' error_payload),
            Sleep 1500,
            Log LDebug (FetchingBatch ''business''),
            HttpGet ''https://newsdata.io/api/1/news''
              [(''apikey'', Str ''k''), (''language'', Str ''en''),
               (''category'', Str ''business'')],
            Log LDebug (FetchedArticles 0 1)]\<rparr>)"
proof -
  have h1: "http_get (scripted_env (Some ''k'') None) (news_url (scripted_env (Some ''k'') None))
      (with_apikey (scripted_env (Some ''k'') None)
        (page_params ''en'' (join '','' [''technology'']) Null))
      (world (scripted_start [Inr error_payload, Inr empty_last_page]))
    = (Inr error_payload, [Inr empty_last_page])"
    by code_simp
  have h2: "status error_payload \<noteq> Str ''success''"
    by code_simp
  note step = mp [OF non_success_aborts_batch
      [where E = "scripted_env (Some ''k'') None" and language = "''en''"
         and batch = "[''technology'']" and n = 2 and i = 0 and rest = "[[''business'']]"
         and tot = no_totals, THEN conjunct2]
      conjI [OF h1 h2]]
  have "batch_loop (scripted_env (Some ''k'') None) ''en'' 2 0 [[''technology''], [''business'']]
       no_totals (scripted_start [Inr error_payload, Inr empty_last_page])
     = (Inr \<lparr>upserted = 0, modified = 0, pages = 1\<rparr>,
        \<lparr>world = [],
         effects =
           [Log LDebug (FetchingBatch ''technology''),
            HttpGet ''https://newsdata.io/api/1/news''
              [(''apikey'', Str ''k''), (''language'', Str ''en''),
               (''category'', Str ''technology'')],
            Log LError (ApiError ''technology'' error_payload),
            Sleep 1500,
            Log LDebug (FetchingBatch ''business''),
            HttpGet ''https://newsdata.io/api/1/news''
              [(''apikey'', Str ''k''), (''language'', Str ''en''),
               (''category'', Str ''business'')],
            Log LDebug (FetchedArticles 0 1)]\<rparr>)"
    by (subst step) code_simp
  with h2 show ?thesis by (rule conjI)
qed

text \<open>
  C6 as stated fails when the non-success payload is not the first response of its batch:
  the pages stored before it stay counted. Here the first page stores two articles and the
  second request of the same batch reports an error; the run returns \<open>pages = 1\<close> and
  \<open>upserted = 2\<close>.
\<close>

theorem non_success_after_stored_page_counterexample:
  "status error_payload \<noteq> Str ''success''
   \<and> fst (ingestNews (scripted_env (Some ''k'') (Some ''technology''))
          (scripted_start [Inr two_articles_page, Inr error_payload]))
       = Inr (Some \<lparr>upserted = 2, modified = 0, pages = 1\<rparr>)
   \<and> filter is_fetch (effects (snd (ingestNews (scripted_env (Some ''k'') (Some ''technology''))
          (scripted_start [Inr two_articles_page, Inr error_payload]))))
       = [HttpGet ''https://newsdata.io/api/1/news''
            [(''apikey'', Str ''k''), (''language'', Str ''en''), (''category'', Str ''technology'')],
          HttpGet ''https://newsdata.io/api/1/news''
            [(''apikey'', Str ''k''), (''language'', Str ''en''), (''category'', Str ''technology''),
             (''page'', Str ''p'')]]"
  by code_simp

text \<open>
  C7 (as amended). When the first request of a batch returns \<open>{status: "success",
  results: [], nextPage: null}\<close> (or no \<open>results\<close> at all), the page loop ends after that
  one request with \<open>pages\<close> increased by 1 and \<open>upserted\<close> and \<open>modified\<close> unchanged; it
  sends no write to the store and waits no inter-page delay. The run then moves to the
  next batch, waiting the 1.5 s inter-batch delay exactly when further batches remain.
\<close>

theorem empty_first_page_no_write:
  "(http_get E (news_url E) (with_apikey E (page_params language categoryParam Null)) (world s)
       = (Inr data, w)
     \<and> status data = Str ''success''
     \<and> (results data = None \<or> results data = Some [])
     \<and> \<not> truthy (nextPage data) \<longrightarrow>
     page_loop E language categoryParam Null 0 tot s
       = (Inr (tot\<lparr>pages := pages tot + 1\<rparr>),
          \<lparr>world = w,
           effects = effects s @
             [HttpGet (news_url E) (with_apikey E (page_params language categoryParam Null)),
              Log LDebug (FetchedArticles 0 1)]\<rparr>))
   \<and> (http_get E (news_url E) (with_apikey E (page_params language (join '','' batch) Null))
         (world s) = (Inr data, w)
       \<and> status data = Str ''success''
       \<and> (results data = None \<or> results data = Some [])
       \<and> \<not> truthy (nextPage data) \<longrightarrow>
       batch_loop E language n i (batch # rest) tot s
         = batch_loop E language n (i + 1) rest (tot\<lparr>pages := pages tot + 1\<rparr>)
             (let s' = \<lparr>world = w,
                        effects = effects s @
                          [Log LDebug (FetchingBatch (join '','' batch)),
                           HttpGet (news_url E)
                             (with_apikey E (page_params language (join '','' batch) Null)),
                           Log LDebug (FetchedArticles 0 1)]\<rparr>
              in if int i < int n - 1 then emit (Sleep 1500) s' else s'))"
proof (intro conjI impI)
  assume a: "http_get E (news_url E) (with_apikey E (page_params language categoryParam Null)) (world s)
       = (Inr data, w)
     \<and> status data = Str ''success''
     \<and> (results data = None \<or> results data = Some [])
     \<and> \<not> truthy (nextPage data)"
  then have "page_body E language categoryParam Null 0 s =
      Stored data \<lparr>upserted = 0, modified = 0\<rparr>
        \<lparr>world = w, effects = effects s @
             [HttpGet (news_url E) (with_apikey E (page_params language categoryParam Null)),
              Log LDebug (FetchedArticles 0 (0 + 1))]\<rparr>"
    by (intro page_body_empty) simp_all
  from page_loop_stop [OF this, of tot] a
  show "page_loop E language categoryParam Null 0 tot s
       = (Inr (tot\<lparr>pages := pages tot + 1\<rparr>),
          \<lparr>world = w,
           effects = effects s @
             [HttpGet (news_url E) (with_apikey E (page_params language categoryParam Null)),
              Log LDebug (FetchedArticles 0 1)]\<rparr>)"
    by (simp add: add_page_zero)
next
  let ?cp = "join '','' batch"
  let ?s0 = "emit (Log LDebug (FetchingBatch ?cp)) s"
  assume a: "http_get E (news_url E) (with_apikey E (page_params language ?cp Null))
         (world s) = (Inr data, w)
       \<and> status data = Str ''success''
       \<and> (results data = None \<or> results data = Some [])
       \<and> \<not> truthy (nextPage data)"
  then have "page_body E language ?cp Null 0 ?s0 =
      Stored data \<lparr>upserted = 0, modified = 0\<rparr>
        \<lparr>world = w, effects = effects ?s0 @
             [HttpGet (news_url E) (with_apikey E (page_params language ?cp Null)),
              Log LDebug (FetchedArticles 0 (0 + 1))]\<rparr>"
    by (intro page_body_empty) (simp_all add: world_emit)
  from page_loop_stop [OF this, of tot] a
  have "page_loop E language ?cp Null 0 tot ?s0
       = (Inr (tot\<lparr>pages := pages tot + 1\<rparr>),
          \<lparr>world = w, effects = effects ?s0 @
             [HttpGet (news_url E) (with_apikey E (page_params language ?cp Null)),
              Log LDebug (FetchedArticles 0 (0 + 1))]\<rparr>)"
    by (simp add: add_page_zero)
  from batch_loop_next [OF this]
  show "batch_loop E language n i (batch # rest) tot s
         = batch_loop E language n (i + 1) rest (tot\<lparr>pages := pages tot + 1\<rparr>)
             (let s' = \<lparr>world = w,
                        effects = effects s @
                          [Log LDebug (FetchingBatch ?cp),
                           HttpGet (news_url E)
                             (with_apikey E (page_params language ?cp Null)),
                           Log LDebug (FetchedArticles 0 1)]\<rparr>
              in if int i < int n - 1 then emit (Sleep 1500) s' else s')"
    by (simp add: effects_emit Let_def)
qed

theorem empty_first_page_no_write_witness:
  "status empty_last_page = Str ''success'' \<and> results empty_last_page = Some []
   \<and> \<not> truthy (nextPage empty_last_page)
   \<and> page_loop (scripted_env (Some ''k'') None) ''en'' ''technology'' Null 0 no_totals
       (scripted_start [Inr empty_last_page])
     = (Inr (no_totals\<lparr>pages := pages no_totals + 1\<rparr>),
        \<lparr>world = [],
         effects = effects (scripted_start [Inr empty_last_page]) @
           [HttpGet (news_url (scripted_env (Some ''k'') None))
              (with_apikey (scripted_env (Some ''k'') None) (page_params ''en'' ''technology'' Null)),
            Log LDebug (FetchedArticles 0 1)]\<rparr>)"
proof -
  have h1: "http_get (scripted_env (Some ''k'') None) (news_url (scripted_env (Some ''k'') None))
      (with_apikey (scripted_env (Some ''k'') None) (page_params ''en'' ''technology'' Null))
      (world (scripted_start [Inr empty_last_page]))
    = (Inr empty_last_page, [])"
    by code_simp
  have h2: "status empty_last_page = Str ''success''" by code_simp
  have h3: "results empty_last_page = Some []" by code_simp
  have h4: "\<not> truthy (nextPage empty_last_page)" by code_simp
  from h3 have h3': "results empty_last_page = None \<or> results empty_last_page = Some []" ..
  note step = mp [OF empty_first_page_no_write
      [where E = "scripted_env (Some ''k'') None" and language = "''en''"
         and categoryParam = "''technology''" and tot = no_totals, THEN conjunct1]
      conjI [OF h1 conjI [OF h2 conjI [OF h3' h4]]]]
  show ?thesis using h2 h3 h4 step by blast
qed

text \<open>
  C7 as stated fails on its last part: with six categories (two batches) and an empty
  successful first page for each, the run waits 1500 ms between the first batch and the
  second.
\<close>

theorem inter_batch_delay_counterexample:
  "status empty_last_page = Str ''success'' \<and> results empty_last_page = Some []
   \<and> nextPage empty_last_page = Null
   \<and> ingestNews
        (scripted_env (Some ''k'') (Some ''technology,business,science,health,sports,entertainment''))
        (scripted_start [Inr empty_last_page, Inr empty_last_page])
     = (Inr (Some \<lparr>upserted = 0, modified = 0, pages = 2\<rparr>),
        \<lparr>world = [],
         effects =
           [Log LInfo (Starting 6 2),
            Log LDebug (FetchingBatch ''technology,business,science,health,sports''),
            HttpGet ''https://newsdata.io/api/1/news''
              [(''apikey'', Str ''k''), (''language'', Str ''en''),
               (''category'', Str ''technology,business,science,health,sports'')],
            Log LDebug (FetchedArticles 0 1),
            Sleep 1500,
            Log LDebug (FetchingBatch ''entertainment''),
            HttpGet ''https://newsdata.io/api/1/news''
              [(''apikey'', Str ''k''), (''language'', Str ''en''),
               (''category'', Str ''entertainment'')],
            Log LDebug (FetchedArticles 0 1),
            Log LInfo (IngestionComplete 2 0 0)]\<rparr>)"
  by code_simp

text \<open>
  C8. Without an API credential (the variable unset or empty) a run logs the condition at
  error level and returns at once: it resolves to \<open>undefined\<close> rather than throwing, sends
  no request, writes nothing to the store and leaves the outside world as it was.
\<close>

theorem missing_credential_skips_run:
  "\<not> env_truthy (NEWSDATA_API_KEY E) \<Longrightarrow>
   ingestNews E s = (Inr None, \<lparr>world = world s, effects = effects s @ [Log LError KeyNotSet]\<rparr>)"
  by (simp add: ingestNews_def emit_def)

theorem missing_credential_skips_run_witness:
  "\<not> env_truthy (NEWSDATA_API_KEY (scripted_env None (Some ''technology'')))
   \<and> \<not> env_truthy (NEWSDATA_API_KEY (scripted_env (Some []) (Some ''technology'')))
   \<and> ingestNews (scripted_env None (Some ''technology'')) (scripted_start [Inr two_articles_page])
     = (Inr None, \<lparr>world = [Inr two_articles_page], effects = [Log LError KeyNotSet]\<rparr>)
   \<and> ingestNews (scripted_env (Some []) (Some ''technology'')) (scripted_start [Inr two_articles_page])
     = (Inr None, \<lparr>world = [Inr two_articles_page], effects = [Log LError KeyNotSet]\<rparr>)"
proof -
  have h1: "\<not> env_truthy (NEWSDATA_API_KEY (scripted_env None (Some ''technology'')))"
    by (simp add: scripted_env_def env_truthy_def)
  have h2: "\<not> env_truthy (NEWSDATA_API_KEY (scripted_env (Some []) (Some ''technology'')))"
    by (simp add: scripted_env_def env_truthy_def)
  show ?thesis
    using h1 h2 missing_credential_skips_run [OF h1, of "scripted_start [Inr two_articles_page]"]
      missing_credential_skips_run [OF h2, of "scripted_start [Inr two_articles_page]"]
    by (simp add: scripted_start_def)
qed

text \<open>
  C9. A request that fails in transport makes the page loop throw that error at once; an
  error leaving the page loop of a batch leaves the batch loop as well, so no later batch
  is tried; and an error leaving the batch loop is logged (status and body of the HTTP
  response when the error carries one, its message otherwise) and rethrown by
  \<open>ingestNews\<close>. The result is the error alone: the totals accumulated so far are not
  returned.
\<close>

theorem transport_failure_is_fatal:
  "(http_get E (news_url E) (with_apikey E (page_params language categoryParam page)) (world s)
       = (Inl e, w) \<longrightarrow>
     page_loop E language categoryParam page pageCount tot s
       = (Inl e,
          \<lparr>world = w,
           effects = effects s @
             [HttpGet (news_url E) (with_apikey E (page_params language categoryParam page))]\<rparr>))
   \<and> (page_loop E language (join '','' batch) Null 0 tot
          (emit (Log LDebug (FetchingBatch (join '','' batch))) s) = (Inl e, sf) \<longrightarrow>
       batch_loop E language n i (batch # rest) tot s = (Inl e, sf))
   \<and> (env_truthy (NEWSDATA_API_KEY E)
       \<and> batch_loop E (env_or (NEWS_FETCH_LANGUAGE E) ''en'')
            (length (categoryBatches (allCategories (NEWS_FETCH_CATEGORIES E)))) 0
            (categoryBatches (allCategories (NEWS_FETCH_CATEGORIES E)))
            \<lparr>upserted = 0, modified = 0, pages = 0\<rparr>
            (emit (Log LInfo (Starting (length (allCategories (NEWS_FETCH_CATEGORIES E)))
                     (length (categoryBatches (allCategories (NEWS_FETCH_CATEGORIES E)))))) s)
          = (Inl e, sf) \<longrightarrow>
       ingestNews E s
         = (Inl e,
            emit (Log LError
                   (case response e of
                      Some r \<Rightarrow> HttpError (resp_status r) (resp_data r)
                    | None \<Rightarrow> IngestionError (message e))) sf))"
proof (intro conjI impI)
  assume "http_get E (news_url E) (with_apikey E (page_params language categoryParam page)) (world s)
       = (Inl e, w)"
  then show "page_loop E language categoryParam page pageCount tot s
       = (Inl e,
          \<lparr>world = w,
           effects = effects s @
             [HttpGet (news_url E) (with_apikey E (page_params language categoryParam page))]\<rparr>)"
    by (intro page_loop_raised page_body_transport_failure)
next
  assume "page_loop E language (join '','' batch) Null 0 tot
          (emit (Log LDebug (FetchingBatch (join '','' batch))) s) = (Inl e, sf)"
  then show "batch_loop E language n i (batch # rest) tot s = (Inl e, sf)"
    by (rule batch_loop_raise)
next
  assume "env_truthy (NEWSDATA_API_KEY E)
       \<and> batch_loop E (env_or (NEWS_FETCH_LANGUAGE E) ''en'')
            (length (categoryBatches (allCategories (NEWS_FETCH_CATEGORIES E)))) 0
            (categoryBatches (allCategories (NEWS_FETCH_CATEGORIES E)))
            \<lparr>upserted = 0, modified = 0, pages = 0\<rparr>
            (emit (Log LInfo (Starting (length (allCategories (NEWS_FETCH_CATEGORIES E)))
                     (length (categoryBatches (allCategories (NEWS_FETCH_CATEGORIES E)))))) s)
          = (Inl e, sf)"
  then show "ingestNews E s
         = (Inl e,
            emit (Log LError
                   (case response e of
                      Some r \<Rightarrow> HttpError (resp_status r) (resp_data r)
                    | None \<Rightarrow> IngestionError (message e))) sf)"
    by (simp add: ingestNews_def Let_def)
qed

theorem transport_failure_is_fatal_witness:
  "env_truthy (NEWSDATA_API_KEY (scripted_env (Some ''k'') (Some ''technology'')))
   \<and> ingestNews (scripted_env (Some ''k'') (Some ''technology''))
       (scripted_start [Inr more_page, Inl rate_limited])
     = (Inl rate_limited,
        \<lparr>world = [],
         effects =
           [Log LInfo (Starting 1 1),
            Log LDebug (FetchingBatch ''technology''),
            HttpGet ''https://newsdata.io/api/1/news''
              [(''apikey'', Str ''k''), (''language'', Str ''en''),
               (''category'', Str ''technology'')],
            Log LDebug (FetchedArticles 0 1),
            Sleep 1000,
            HttpGet ''https://newsdata.io/api/1/news''
              [(''apikey'', Str ''k''), (''language'', Str ''en''),
               (''category'', Str ''technology''), (''page'', Str ''p'')],
            Log LError (HttpError 429 (Str ''slow down''))]\<rparr>)"
proof -
  let ?E = "scripted_env (Some ''k'') (Some ''technology'')"
  let ?s2 = "\<lparr>world = [],
         effects =
           [Log LInfo (Starting 1 1),
            Log LDebug (FetchingBatch ''technology''),
            HttpGet ''https://newsdata.io/api/1/news''
              [(''apikey'', Str ''k''), (''language'', Str ''en''),
               (''category'', Str ''technology'')],
            Log LDebug (FetchedArticles 0 1),
            Sleep 1000,
            HttpGet ''https://newsdata.io/api/1/news''
              [(''apikey'', Str ''k''), (''language'', Str ''en''),
               (''category'', Str ''technology''), (''page'', Str ''p'')]]\<rparr>
        :: (js_error + payload) list st"
  have h1: "env_truthy (NEWSDATA_API_KEY ?E)"
    by code_simp
  have h2: "batch_loop ?E (env_or (NEWS_FETCH_LANGUAGE ?E) ''en'')
            (length (categoryBatches (allCategories (NEWS_FETCH_CATEGORIES ?E)))) 0
            (categoryBatches (allCategories (NEWS_FETCH_CATEGORIES ?E)))
            \<lparr>upserted = 0, modified = 0, pages = 0\<rparr>
            (emit (Log LInfo (Starting (length (allCategories (NEWS_FETCH_CATEGORIES ?E)))
                     (length (categoryBatches (allCategories (NEWS_FETCH_CATEGORIES ?E))))))
               (scripted_start [Inr more_page, Inl rate_limited]))
          = (Inl rate_limited, ?s2)"
    by code_simp
  note run = mp [OF transport_failure_is_fatal
      [where E = ?E and s = "scripted_start [Inr more_page, Inl rate_limited]"
         and e = rate_limited and sf = ?s2, THEN conjunct2, THEN conjunct2]
      conjI [OF h1 h2]]
  have "ingestNews ?E (scripted_start [Inr more_page, Inl rate_limited])
     = (Inl rate_limited,
        \<lparr>world = [],
         effects =
           [Log LInfo (Starting 1 1),
            Log LDebug (FetchingBatch ''technology''),
            HttpGet ''https://newsdata.io/api/1/news''
              [(''apikey'', Str ''k''), (''language'', Str ''en''),
               (''category'', Str ''technology'')],
            Log LDebug (FetchedArticles 0 1),
            Sleep 1000,
            HttpGet ''https://newsdata.io/api/1/news''
              [(''apikey'', Str ''k''), (''language'', Str ''en''),
               (''category'', Str ''technology''), (''page'', Str ''p'')],
            Log LError (HttpError 429 (Str ''slow down''))]\<rparr>)"
    by (subst run) code_simp
  with h1 show ?thesis by (rule conjI)
qed

text \<open>
  C10. Without a credential \<open>ingestNews\<close> resolves to \<open>undefined\<close>, and so does a manual
  trigger, which completes normally and releases the guard. With a credential a run never
  resolves to \<open>undefined\<close>: it throws or returns a totals object, which for a run with no
  category to fetch is \<open>{pages: 0, upserted: 0, modified: 0}\<close>.
\<close>

theorem missing_credential_returns_no_totals:
  "(\<not> env_truthy (NEWSDATA_API_KEY E) \<longrightarrow>
      fst (ingestNews E s) = Inr None
      \<and> triggerManualIngestion E (False, s) = (Inr None, (False, emit (Log LError KeyNotSet) s)))
   \<and> (env_truthy (NEWSDATA_API_KEY E) \<longrightarrow>
        fst (ingestNews E s) \<noteq> Inr None
        \<and> fst (triggerManualIngestion E (False, s)) \<noteq> Inr None
        \<and> (allCategories (NEWS_FETCH_CATEGORIES E) = [] \<longrightarrow>
             fst (triggerManualIngestion E (False, s))
               = Inr (Some \<lparr>upserted = 0, modified = 0, pages = 0\<rparr>)))"
proof (intro conjI impI)
  assume a: "\<not> env_truthy (NEWSDATA_API_KEY E)"
  then show "fst (ingestNews E s) = Inr None" by (simp add: ingestNews_def)
  from a show "triggerManualIngestion E (False, s) = (Inr None, (False, emit (Log LError KeyNotSet) s))"
    by (simp add: triggerManualIngestion_def manual_enter_def ingestNews_def release_def)
next
  assume a: "env_truthy (NEWSDATA_API_KEY E)"
  then show b: "fst (ingestNews E s) \<noteq> Inr None"
    by (auto simp: ingestNews_def Let_def split: prod.splits sum.splits)
  then show "fst (triggerManualIngestion E (False, s)) \<noteq> Inr None"
    by (simp add: triggerManualIngestion_def manual_enter_def case_prod_beta)
next
  assume a: "env_truthy (NEWSDATA_API_KEY E)" and b: "allCategories (NEWS_FETCH_CATEGORIES E) = []"
  have "categoryBatches ([] :: string list) = []"
    by (simp add: categoryBatches_def chunk_loop.simps)
  with a b show "fst (triggerManualIngestion E (False, s))
               = Inr (Some \<lparr>upserted = 0, modified = 0, pages = 0\<rparr>)"
    by (simp add: triggerManualIngestion_def manual_enter_def ingestNews_def Let_def split: prod.splits)
qed

theorem missing_credential_returns_no_totals_witness:
  "\<not> env_truthy (NEWSDATA_API_KEY (scripted_env None None))
   \<and> triggerManualIngestion (scripted_env None None) (False, scripted_start [Inr empty_last_page])
       = (Inr None, (False, emit (Log LError KeyNotSet) (scripted_start [Inr empty_last_page])))
   \<and> env_truthy (NEWSDATA_API_KEY (scripted_env (Some ''k'') (Some '','')))
   \<and> allCategories (NEWS_FETCH_CATEGORIES (scripted_env (Some ''k'') (Some '',''))) = []
   \<and> fst (triggerManualIngestion (scripted_env (Some ''k'') (Some '','')) (False, scripted_start []))
       = Inr (Some \<lparr>upserted = 0, modified = 0, pages = 0\<rparr>)
   \<and> fst (triggerManualIngestion (scripted_env (Some ''k'') (Some ''technology''))
            (False, scripted_start [Inr empty_last_page]))
       = Inr (Some \<lparr>upserted = 0, modified = 0, pages = 1\<rparr>)"
proof -
  have h1: "\<not> env_truthy (NEWSDATA_API_KEY (scripted_env None None))"
    by code_simp
  have h2: "env_truthy (NEWSDATA_API_KEY (scripted_env (Some ''k'') (Some '','')))"
    by code_simp
  have h3: "allCategories (NEWS_FETCH_CATEGORIES (scripted_env (Some ''k'') (Some '',''))) = []"
    by code_simp
  have h4: "fst (triggerManualIngestion (scripted_env (Some ''k'') (Some ''technology''))
            (False, scripted_start [Inr empty_last_page]))
       = Inr (Some \<lparr>upserted = 0, modified = 0, pages = 1\<rparr>)"
    by code_simp
  show ?thesis
    using h1 h2 h3 h4
      missing_credential_returns_no_totals
        [of "scripted_env None None" "scripted_start [Inr empty_last_page]"]
      missing_credential_returns_no_totals
        [of "scripted_env (Some ''k'') (Some '','')" "scripted_start []"]
    by simp
qed

section \<open>Upserts: proofs\<close>

lemma set_fields_link:
  "map_of (set_fields parsed article) ''link'' = Some (Js (get_prop article ''link''))"
  by (simp add: set_fields_def)

lemma set_fields_scalars:
  "map (map_of (set_fields parsed article)) scalar_fields
     = map (\<lambda>f. Some (Js (js_or (get_prop article f) Null))) scalar_fields"
  by (simp add: set_fields_def scalar_fields_def)

lemma set_fields_arrays:
  "map (map_of (set_fields parsed article)) array_fields
     = map (\<lambda>f. Some (Js (js_or (get_prop article f) (Arr [])))) array_fields"
  by (simp add: set_fields_def array_fields_def)

text \<open>
  C5. Re-ingestion is to overwrite every mutable field, an absent scalar by an explicit
  \<open>null\<close>. The update document the map callback builds does so for each of the defaulted
  scalars and replaces each array by the record's own (or \<open>[]\<close>), but it passes \<open>link\<close> on
  as the record has it: for a record without a link the document carries
  \<open>link: undefined\<close>, where \<open>description\<close>, absent from the same record, is written as
  \<open>null\<close>.
\<close>

theorem absent_link_written_undefined:
  "map_of (set_fields parsed article) ''link'' = Some (Js (get_prop article ''link''))
   \<and> map (map_of (set_fields parsed article)) scalar_fields
       = map (\<lambda>f. Some (Js (js_or (get_prop article f) Null))) scalar_fields
   \<and> map (map_of (set_fields parsed article)) array_fields
       = map (\<lambda>f. Some (Js (js_or (get_prop article f) (Arr [])))) array_fields
   \<and> get_prop record_without_link ''link'' = Undefined
   \<and> get_prop record_without_link ''description'' = Undefined
   \<and> update_op other record_without_link
       = Inr \<lparr>filter_article_id = Str ''a1'',
              set_doc = set_fields (Js Null) record_without_link,
              upsert = True\<rparr>
   \<and> map_of (set_fields (Js Null) record_without_link) ''link'' = Some (Js Undefined)
   \<and> map_of (set_fields (Js Null) record_without_link) ''link'' \<noteq> Some (Js Null)
   \<and> map_of (set_fields (Js Null) record_without_link) ''description'' = Some (Js Null)
   \<and> map_of (set_fields (Js Null) record_without_link) ''keywords''
       = Some (Js (Arr [Str ''new'']))"
proof -
  have g: "get_prop record_without_link ''link'' = Undefined"
    "get_prop record_without_link ''description'' = Undefined"
    "get_prop record_without_link ''pubDate'' = Undefined"
    "get_prop record_without_link ''article_id'' = Str ''a1''"
    "get_prop record_without_link ''keywords'' = Arr [Str ''new'']"
    by (simp_all add: get_prop_def record_without_link_def)
  have u: "update_op other record_without_link
       = Inr \<lparr>filter_article_id = Str ''a1'',
              set_doc = set_fields (Js Null) record_without_link,
              upsert = True\<rparr>"
    by (simp add: update_op_def parsedDate_def g)
  have f: "map_of (set_fields (Js Null) record_without_link) ''description'' = Some (Js Null)"
    "map_of (set_fields (Js Null) record_without_link) ''keywords'' = Some (Js (Arr [Str ''new'']))"
    by (simp_all add: set_fields_def g js_or_def)
  show ?thesis
    using g u f by (simp add: set_fields_link set_fields_scalars set_fields_arrays)
qed

section \<open>Dates: proofs\<close>

lemma digit_not_sep:
  "digit_of c \<noteq> None \<Longrightarrow> c \<noteq> CHR '' '' \<and> c \<noteq> CHR ''+'' \<and> c \<noteq> CHR ''-''"
  by (auto simp: digit_of_def Let_def)

lemma read_digits_shape:
  "read_digits k s = Some (v, rest) \<Longrightarrow>
   \<exists>ds. s = ds @ rest \<and> length ds = k \<and> (\<forall>c \<in> set ds. digit_of c \<noteq> None)
        \<and> (\<forall>t. read_digits k (ds @ t) = Some (v, t)) \<and> v < 10 ^ k"
proof (induction k arbitrary: s v)
  case 0
  then show ?case by simp
next
  case (Suc k)
  from Suc.prems obtain c cs where s: "s = c # cs" by (cases s) simp_all
  from Suc.prems s obtain dg v' where dg: "digit_of c = Some dg"
    and r: "read_digits k cs = Some (v', rest)" and v: "v = dg * 10 ^ k + v'"
    by (auto split: option.splits)
  from Suc.IH [OF r] obtain ds where ds: "cs = ds @ rest" "length ds = k"
    "\<forall>c \<in> set ds. digit_of c \<noteq> None" "\<forall>t. read_digits k (ds @ t) = Some (v', t)" "v' < 10 ^ k"
    by blast
  have "dg \<le> 9" using dg by (auto simp: digit_of_def Let_def split: if_splits)
  then have "dg * 10 ^ k \<le> 9 * 10 ^ k" by simp
  then have "dg * 10 ^ k + v' < 10 * 10 ^ k" using ds(5) by linarith
  then have "v < 10 ^ Suc k" using v by simp
  then show ?case
    using s ds dg v by (intro exI [of _ "c # ds"]) simp
qed

lemma read_sep_shape:
  "read_sep c k s = Some (v, rest) \<Longrightarrow>
   \<exists>ds. s = c # ds @ rest \<and> length ds = k \<and> (\<forall>c \<in> set ds. digit_of c \<noteq> None)
        \<and> (\<forall>t. read_digits k (ds @ t) = Some (v, t)) \<and> v < 10 ^ k"
proof -
  assume a: "read_sep c k s = Some (v, rest)"
  then obtain s' where s: "s = c # s'" and r: "read_digits k s' = Some (v, rest)"
    by (cases s) (auto simp: read_sep_def read_char_def split: if_splits)
  from read_digits_shape [OF r] s show ?thesis by auto
qed

lemma replace_first_skip:
  "\<forall>c \<in> set ds. c \<noteq> a \<Longrightarrow> replace_first a b (ds @ t) = ds @ replace_first a b t"
  by (induction ds) simp_all

lemma read_year_digits:
  assumes "length ds = 4" and "\<forall>c \<in> set ds. digit_of c \<noteq> None"
    and "read_digits 4 (ds @ t) = Some (y, t)"
  shows "read_year (ds @ t) = Some (int y, t)"
proof -
  from assms(1) obtain c cs where ds: "ds = c # cs" by (cases ds) simp_all
  with assms(2) have "c \<noteq> CHR ''+''" "c \<noteq> CHR ''-''" using digit_not_sep [of c] by simp_all
  with assms(3) ds show ?thesis by (simp add: read_year_def)
qed

lemma DaysInMonth_le: "DaysInMonth y m \<le> 31"
  by (simp add: DaysInMonth_def)

lemma month_days_le: "(\<Sum>k \<leftarrow> ms. DaysInMonth y k) \<le> 31 * length ms"
proof (induction ms)
  case Nil
  then show ?case by simp
next
  case (Cons k ms)
  then show ?case using DaysInMonth_le [of y k] by simp
qed

lemma DayFromYear_bounds:
  assumes "0 \<le> y" and "y < 10000"
  shows "- 800000 \<le> DayFromYear y" and "DayFromYear y \<le> 4000000"
proof -
  define a where "a = (y - 1969) div 4"
  define b where "b = (y - 1901) div 100"
  define c where "c = (y - 1601) div 400"
  have "(0 - 1969) div 4 \<le> a" "a \<le> (10000 - 1969) div 4"
    unfolding a_def using assms by (intro zdiv_mono1; simp)+
  moreover have "(0 - 1901) div 100 \<le> b" "b \<le> (10000 - 1901) div 100"
    unfolding b_def using assms by (intro zdiv_mono1; simp)+
  moreover have "(0 - 1601) div 400 \<le> c" "c \<le> (10000 - 1601) div 400"
    unfolding c_def using assms by (intro zdiv_mono1; simp)+
  moreover have "DayFromYear y = 365 * (y - 1970) + a - b + c"
    by (simp add: DayFromYear_def a_def b_def c_def)
  ultimately show "- 800000 \<le> DayFromYear y" and "DayFromYear y \<le> 4000000"
    using assms by simp_all
qed

lemma TimeClip_pubDate:
  assumes "y < 10 ^ 4" "m \<le> 12" "d \<le> 31" "h \<le> 23" "mi \<le> 59" "sec \<le> 59"
  shows "TimeClip (MakeDate (MakeDay (int y) m d) (MakeTime h mi sec 0))
           = Some (MakeDate (MakeDay (int y) m d) (MakeTime h mi sec 0))"
proof -
  have dy: "- 800000 \<le> DayFromYear (int y)" "DayFromYear (int y) \<le> 4000000"
    using DayFromYear_bounds [of "int y"] assms(1) by simp_all
  have "(\<Sum>k \<leftarrow> [1..<m]. DaysInMonth (int y) k) \<le> 31 * length [1..<m]"
    by (rule month_days_le)
  then have ms: "int (\<Sum>k \<leftarrow> [1..<m]. DaysInMonth (int y) k) \<le> 372"
    using assms(2) by simp
  have ms0: "0 \<le> int (\<Sum>k \<leftarrow> [1..<m]. DaysInMonth (int y) k)" by simp
  define day where "day = MakeDay (int y) m d"
  define tm where "tm = MakeTime h mi sec 0"
  have "- 800001 \<le> day" "day \<le> 4000500"
    unfolding day_def MakeDay_def using dy ms ms0 assms(3) by linarith+
  moreover have "0 \<le> tm" "tm < 86400000"
    unfolding tm_def MakeTime_def using assms(4-6) by simp_all
  ultimately have "\<bar>MakeDate day tm\<bar> \<le> 8640000000000000"
    unfolding MakeDate_def by linarith
  then show ?thesis by (simp add: TimeClip_def day_def tm_def)
qed

lemma parse_iso_utc_pubDate:
  assumes rp: "read_pubDate s = Some (y, m, d, h, mi, sec)"
    and ok: "1 \<le> m" "m \<le> 12" "1 \<le> d" "d \<le> DaysInMonth (int y) m"
            "h \<le> 23" "mi \<le> 59" "sec \<le> 59"
  shows "parse_iso_utc (replace_first CHR '' '' CHR ''T'' s @ ''Z'')
           = Some (utc_instant (y, m, d, h, mi, sec))"
proof -
  from rp obtain s1 s2 s3 s4 s5 where
        r1: "read_digits 4 s = Some (y, s1)"
    and r2: "read_sep CHR ''-'' 2 s1 = Some (m, s2)"
    and r3: "read_sep CHR ''-'' 2 s2 = Some (d, s3)"
    and r4: "read_sep CHR '' '' 2 s3 = Some (h, s4)"
    and r5: "read_sep CHR '':'' 2 s4 = Some (mi, s5)"
    and r6: "read_sep CHR '':'' 2 s5 = Some (sec, [])"
    by (auto simp: read_pubDate_def bind_eq_Some_conv split: if_splits)
  from read_digits_shape [OF r1] obtain Y where
    Y: "s = Y @ s1" "length Y = 4" "\<forall>c \<in> set Y. digit_of c \<noteq> None"
       "\<And>t. read_digits 4 (Y @ t) = Some (y, t)" "y < 10 ^ 4"
    by blast
  from read_sep_shape [OF r2] obtain M where
    M: "s1 = CHR ''-'' # M @ s2" "\<forall>c \<in> set M. digit_of c \<noteq> None"
       "\<And>t. read_digits 2 (M @ t) = Some (m, t)"
    by blast
  from read_sep_shape [OF r3] obtain D where
    D: "s2 = CHR ''-'' # D @ s3" "\<forall>c \<in> set D. digit_of c \<noteq> None"
       "\<And>t. read_digits 2 (D @ t) = Some (d, t)"
    by blast
  from read_sep_shape [OF r4] obtain H where
    H: "s3 = CHR '' '' # H @ s4" "\<And>t. read_digits 2 (H @ t) = Some (h, t)"
    by blast
  from read_sep_shape [OF r5] obtain MI where
    MI: "s4 = CHR '':'' # MI @ s5" "\<And>t. read_digits 2 (MI @ t) = Some (mi, t)"
    by blast
  from read_sep_shape [OF r6] obtain S where
    S: "s5 = CHR '':'' # S" "\<And>t. read_digits 2 (S @ t) = Some (sec, t)"
    by auto
  let ?tail = "CHR ''T'' # H @ CHR '':'' # MI @ CHR '':'' # S @ ''Z''"
  have nsY: "\<forall>c \<in> set Y. c \<noteq> CHR '' ''" using Y(3) digit_not_sep by blast
  have nsM: "\<forall>c \<in> set M. c \<noteq> CHR '' ''" using M(2) digit_not_sep by blast
  have nsD: "\<forall>c \<in> set D. c \<noteq> CHR '' ''" using D(2) digit_not_sep by blast
  have "replace_first CHR '' '' CHR ''T'' s
          = Y @ CHR ''-'' # M @ CHR ''-'' # D @ CHR ''T'' # H @ CHR '':'' # MI @ CHR '':'' # S"
    by (simp add: Y(1) M(1) D(1) H(1) MI(1) S(1) replace_first_skip [OF nsY]
        replace_first_skip [OF nsM] replace_first_skip [OF nsD])
  then have iso: "replace_first CHR '' '' CHR ''T'' s @ ''Z''
          = Y @ CHR ''-'' # M @ CHR ''-'' # D @ ?tail"
    by simp
  have ry: "read_year (Y @ CHR ''-'' # M @ CHR ''-'' # D @ ?tail)
              = Some (int y, CHR ''-'' # M @ CHR ''-'' # D @ ?tail)"
    by (rule read_year_digits [OF Y(2) Y(3) Y(4)])
  have rmd: "read_month_day (CHR ''-'' # M @ CHR ''-'' # D @ ?tail) = Some ((m, d), ?tail)"
    by (simp add: read_month_day_def read_char_def M(3) D(3))
  have rsm: "read_sec_ms (CHR '':'' # S @ ''Z'') = Some ((sec, 0), ''Z'')"
    by (simp add: read_sec_ms_def read_char_def S(2))
  have rt: "read_time ?tail = Some ((h, mi, sec, 0), ''Z'')"
    by (simp add: read_time_def read_char_def H(2) MI(2) rsm)
  have d31: "d \<le> 31" using ok(4) DaysInMonth_le [of "int y" m] by simp
  have tc: "TimeClip (MakeDate (MakeDay (int y) m d) (MakeTime h mi sec 0))
           = Some (MakeDate (MakeDay (int y) m d) (MakeTime h mi sec 0))"
    by (rule TimeClip_pubDate [OF Y(5) ok(2) d31 ok(5) ok(6) ok(7)])
  show ?thesis
    unfolding iso parse_iso_utc_def
    using ok by (simp add: ry rmd rt tc utc_instant_def)
qed
lemma parsedDate_valid:
  assumes "read_pubDate s = Some (y, m, d, h, mi, sec)"
    and "1 \<le> m" "m \<le> 12" "1 \<le> d" "d \<le> DaysInMonth (int y) m"
        "h \<le> 23" "mi \<le> 59" "sec \<le> 59"
  shows "parsedDate other (Str s) = Inr (DateValue (utc_instant (y, m, d, h, mi, sec)))"
proof -
  have "read_digits 4 [] = None" by (simp add: numeral_eq_Suc)
  with assms(1) have "s \<noteq> []"
    by (auto simp: read_pubDate_def)
  then show ?thesis
    using parse_iso_utc_pubDate [OF assms]
    by (simp add: parsedDate_def Date_parse_def Let_def)
qed

lemma parsedDate_string:
  "parsedDate other (Str s) =
     (if s = [] then Inr (Js Null)
      else case Date_parse other (replace_first CHR '' '' CHR ''T'' s @ ''Z'') of
             None \<Rightarrow> Inr (Js Null)
           | Some t \<Rightarrow> Inr (DateValue t))"
  by (simp add: parsedDate_def Let_def)

lemma parsedDate_throws:
  "(\<exists>e. parsedDate other v = Inl e) = (truthy v \<and> js_String v = None)"
  by (auto simp: parsedDate_def Let_def split: option.splits)

lemma parsedDate_error: "parsedDate other v = Inl e \<Longrightarrow> e = to_primitive_error"
  by (auto simp: parsedDate_def Let_def split: option.splits if_splits)

lemma set_fields_pubDate: "map_of (set_fields parsed article) ''pubDate'' = Some parsed"
  by (simp add: set_fields_def)

lemma feb20: "valid_pubDate ''2026-02-20 17:45:00''"
  by code_simp

lemma feb20_instant: "utc_instant (the (read_pubDate ''2026-02-20 17:45:00'')) = 1771609500000"
  by code_simp

lemma not_a_date: "Date_parse (\<lambda>str. None)
    (replace_first CHR '' '' CHR ''T'' ''not a date'' @ ''Z'') = None"
  by code_simp

lemma object_date:
  "truthy (Obj [(''toString'', Num 1)]) \<and> js_String (Obj [(''toString'', Num 1)]) = None"
  by code_simp

text \<open>
  C4 (as amended). For every record whose date is a valid \<open>"YYYY-MM-DD HH:mm:ss"\<close> string,
  normalization yields the \<open>Date\<close> of that instant read as UTC, whatever other formats the
  engine accepts. On a date string it never throws: an empty string, and a string whose
  rewritten form (first space replaced by \<open>T\<close>, \<open>Z\<close> appended) the date parser rejects,
  give \<open>pubDate = null\<close> in the update document; every other string gives the instant the
  parser returns. Of all date values, the ones that make the callback throw are exactly
  the truthy ones that \<open>String\<close> cannot convert.
\<close>

theorem pubDate_normalization:
  "(read_pubDate s = Some (y, m, d, h, mi, sec)
      \<and> 1 \<le> m \<and> m \<le> 12 \<and> 1 \<le> d \<and> d \<le> DaysInMonth (int y) m
      \<and> h \<le> 23 \<and> mi \<le> 59 \<and> sec \<le> 59 \<longrightarrow>
      parsedDate other (Str s) = Inr (DateValue (utc_instant (y, m, d, h, mi, sec))))
   \<and> (valid_pubDate s \<longrightarrow>
        parsedDate other (Str s) = Inr (DateValue (utc_instant (the (read_pubDate s)))))
   \<and> parsedDate other (Str s)
       = (if s = [] then Inr (Js Null)
          else case Date_parse other (replace_first CHR '' '' CHR ''T'' s @ ''Z'') of
                 None \<Rightarrow> Inr (Js Null)
               | Some t \<Rightarrow> Inr (DateValue t))
   \<and> (Date_parse other (replace_first CHR '' '' CHR ''T'' s @ ''Z'') = None \<longrightarrow>
        parsedDate other (Str s) = Inr (Js Null))
   \<and> parsedDate other (Str s) \<noteq> Inl e
   \<and> (\<not> truthy v \<longrightarrow> parsedDate other v = Inr (Js Null))
   \<and> (\<exists>e'. parsedDate other v = Inl e') = (truthy v \<and> js_String v = None)
   \<and> (parsedDate other v = Inl e \<longrightarrow> e = to_primitive_error)
   \<and> (parsedDate other (get_prop article ''pubDate'') = Inr parsed \<longrightarrow>
        update_op other article
          = Inr \<lparr>filter_article_id = get_prop article ''article_id'',
                 set_doc = set_fields parsed article, upsert = True\<rparr>
        \<and> map_of (set_fields parsed article) ''pubDate'' = Some parsed)"
proof (intro conjI impI)
  assume "read_pubDate s = Some (y, m, d, h, mi, sec)
      \<and> 1 \<le> m \<and> m \<le> 12 \<and> 1 \<le> d \<and> d \<le> DaysInMonth (int y) m
      \<and> h \<le> 23 \<and> mi \<le> 59 \<and> sec \<le> 59"
  then show "parsedDate other (Str s) = Inr (DateValue (utc_instant (y, m, d, h, mi, sec)))"
    by (intro parsedDate_valid) simp_all
next
  assume "valid_pubDate s"
  then obtain y m d h mi sec where "read_pubDate s = Some (y, m, d, h, mi, sec)"
    "1 \<le> m" "m \<le> 12" "1 \<le> d" "d \<le> DaysInMonth (int y) m" "h \<le> 23" "mi \<le> 59" "sec \<le> 59"
    by (auto simp: valid_pubDate_def split: option.splits)
  then show "parsedDate other (Str s) = Inr (DateValue (utc_instant (the (read_pubDate s))))"
    using parsedDate_valid [of s y m d h mi sec other] by simp
next
  show "parsedDate other (Str s)
       = (if s = [] then Inr (Js Null)
          else case Date_parse other (replace_first CHR '' '' CHR ''T'' s @ ''Z'') of
                 None \<Rightarrow> Inr (Js Null)
               | Some t \<Rightarrow> Inr (DateValue t))"
    by (rule parsedDate_string)
next
  assume "Date_parse other (replace_first CHR '' '' CHR ''T'' s @ ''Z'') = None"
  then show "parsedDate other (Str s) = Inr (Js Null)"
    by (simp add: parsedDate_string)
next
  show "parsedDate other (Str s) \<noteq> Inl e"
    by (simp add: parsedDate_string split: option.splits)
next
  assume "\<not> truthy v"
  then show "parsedDate other v = Inr (Js Null)"
    by (simp add: parsedDate_def)
next
  show "(\<exists>e'. parsedDate other v = Inl e') = (truthy v \<and> js_String v = None)"
    by (rule parsedDate_throws)
next
  assume "parsedDate other v = Inl e"
  then show "e = to_primitive_error" by (rule parsedDate_error)
next
  assume "parsedDate other (get_prop article ''pubDate'') = Inr parsed"
  then show "update_op other article
          = Inr \<lparr>filter_article_id = get_prop article ''article_id'',
                 set_doc = set_fields parsed article, upsert = True\<rparr>"
    by (simp add: update_op_def)
next
  show "map_of (set_fields parsed article) ''pubDate'' = Some parsed"
    by (rule set_fields_pubDate)
qed

theorem pubDate_normalization_witness:
  "valid_pubDate ''2026-02-20 17:45:00''
   \<and> parsedDate (\<lambda>str. None) (Str ''2026-02-20 17:45:00'') = Inr (DateValue 1771609500000)
   \<and> Date_parse (\<lambda>str. None) (replace_first CHR '' '' CHR ''T'' ''not a date'' @ ''Z'') = None
   \<and> parsedDate (\<lambda>str. None) (Str ''not a date'') = Inr (Js Null)
   \<and> \<not> truthy (Str [])
   \<and> parsedDate (\<lambda>str. None) (Str []) = Inr (Js Null)
   \<and> truthy (Obj [(''toString'', Num 1)])
   \<and> parsedDate (\<lambda>str. None) (Obj [(''toString'', Num 1)]) = Inl to_primitive_error
   \<and> update_op (\<lambda>str. None) [(''article_id'', Str ''a1''), (''pubDate'', Str ''not a date'')]
       = Inr \<lparr>filter_article_id = Str ''a1'',
              set_doc = set_fields (Js Null)
                          [(''article_id'', Str ''a1''), (''pubDate'', Str ''not a date'')],
              upsert = True\<rparr>"
proof -
  note valid = pubDate_normalization
    [where s = "''2026-02-20 17:45:00''" and other = "\<lambda>str. None", THEN conjunct2, THEN conjunct1]
  note bad = pubDate_normalization
    [where s = "''not a date''" and other = "\<lambda>str. None" and v = "Str []"
       and article = "[(''article_id'', Str ''a1''), (''pubDate'', Str ''not a date'')]"
       and parsed = "Js Null"]
  note obj = pubDate_normalization
    [where other = "\<lambda>str. None" and v = "Obj [(''toString'', Num 1)]"]
  have g: "get_prop [(''article_id'', Str ''a1''), (''pubDate'', Str ''not a date'')] ''pubDate''
             = Str ''not a date''"
    "get_prop [(''article_id'', Str ''a1''), (''pubDate'', Str ''not a date'')] ''article_id''
             = Str ''a1''"
    by (simp_all add: get_prop_def)
  have "parsedDate (\<lambda>str. None) (Obj [(''toString'', Num 1)]) = Inl to_primitive_error"
    using obj object_date by blast
  then show ?thesis
    using valid bad feb20 feb20_instant not_a_date object_date g by simp
qed

text \<open>
  C4 as stated fails on its second half: a string that is not in the
  \<open>"YYYY-MM-DD HH:mm:ss"\<close> format still gets a \<open>pubDate\<close> when its rewritten form is a
  date-time the parser accepts. Without seconds, or with \<open>T\<close> in place of the space, the
  rewritten string is in the ECMAScript format, which every engine parses.
\<close>

theorem malformed_date_parsed_counterexample:
  "\<not> valid_pubDate ''2024-01-15 10:30''
   \<and> read_pubDate ''2024-01-15 10:30'' = None
   \<and> parsedDate (\<lambda>str. None) (Str ''2024-01-15 10:30'') = Inr (DateValue 1705314600000)
   \<and> \<not> valid_pubDate ''2024-01-15T10:30:00''
   \<and> parsedDate (\<lambda>str. None) (Str ''2024-01-15T10:30:00'') = Inr (DateValue 1705314600000)"
  by code_simp

end
